theory Spec2Isabelle
  imports Complex_Main "HOL-Library.AList"
begin

section \<open>Tool-name sanitization (toolLoader, loadTools)\<close>

text \<open>
  A JavaScript string is a sequence of UTF-16 code units. Here a \<open>char\<close> stands for one code
  unit; the model covers the code units below 256. The character class
  \<^verbatim>\<open>[a-zA-Z0-9_-]\<close> only distinguishes ASCII letters, digits, underscore and hyphen, every
  other unit is outside the class.
\<close>

definition name_char :: "char \<Rightarrow> bool" where
  "name_char c \<longleftrightarrow>
     (let n = (of_char c :: nat) in
        (97 \<le> n \<and> n \<le> 122) \<or> (65 \<le> n \<and> n \<le> 90) \<or> (48 \<le> n \<and> n \<le> 57)
        \<or> c = CHR ''_'' \<or> c = CHR ''-'')"

text \<open>\<^verbatim>\<open>.replace(/[^a-zA-Z0-9_-]/g, '_')\<close>\<close>

definition replace_invalid :: "string \<Rightarrow> string" where
  "replace_invalid s = map (\<lambda>c. if name_char c then c else CHR ''_'') s"

text \<open>\<^verbatim>\<open>.replace(/_+/g, '_')\<close>: every maximal run of underscores becomes one underscore.\<close>

fun collapse_underscores :: "string \<Rightarrow> string" where
  "collapse_underscores [] = []"
| "collapse_underscores [c] = [c]"
| "collapse_underscores (c # d # s) =
     (if c = CHR ''_'' \<and> d = CHR ''_'' then collapse_underscores (d # s)
      else c # collapse_underscores (d # s))"

text \<open>The key computed in both registration loops; \<^verbatim>\<open>.slice(0, 128)\<close> keeps the first 128 units.\<close>

definition safeName :: "string \<Rightarrow> string" where
  "safeName n = take 128 (collapse_underscores (replace_invalid n))"

text \<open>No two neighbouring characters of the string are both the character \<open>c\<close>.\<close>

fun no_run :: "char \<Rightarrow> string \<Rightarrow> bool" where
  "no_run c [] = True"
| "no_run c [x] = True"
| "no_run c (x # y # s) = (\<not> (x = c \<and> y = c) \<and> no_run c (y # s))"

text \<open>
  Following the specification's words (the canonical form of a name, in one pass): a letter,
  a digit or a hyphen is kept as it is; any other character, and an underscore, belongs to a
  separator, and each maximal run of separator characters is written as one underscore. The
  flag says that the character before was part of a separator.
\<close>

fun canonical :: "bool \<Rightarrow> string \<Rightarrow> string" where
  "canonical u [] = []"
| "canonical u (c # s) =
     (if name_char c \<and> c \<noteq> CHR ''_'' then c # canonical False s
      else if u then canonical True s
      else CHR ''_'' # canonical True s)"

section \<open>JavaScript values, thrown values and the outside world\<close>

text \<open>
  A value thrown by an \<^verbatim>\<open>await\<close>: an instance of \<^verbatim>\<open>Error\<close> with its message (the one
  named \<^verbatim>\<open>AbortError\<close> apart, which an aborted \<^verbatim>\<open>fetch\<close> throws), or any other value, kept
  as its \<^verbatim>\<open>String(e)\<close> form.
\<close>

datatype thrown = ErrorObj string | AbortError string | NonError string

datatype jsval =
    JUndefined
  | JNull
  | JBool bool
  | JNum int
  | JStr string
  | JArr "jsval list"
  | JObj "(string \<times> jsval) list"

text \<open>JavaScript truthiness, as used by \<^verbatim>\<open>x ? a : b\<close>, \<^verbatim>\<open>x || y\<close> and \<^verbatim>\<open>if (x)\<close>.\<close>

fun truthy :: "jsval \<Rightarrow> bool" where
  "truthy JUndefined = False"
| "truthy JNull = False"
| "truthy (JBool b) = b"
| "truthy (JNum n) = (n \<noteq> 0)"
| "truthy (JStr s) = (s \<noteq> [])"
| "truthy (JArr xs) = True"
| "truthy (JObj kvs) = True"

text \<open>\<^verbatim>\<open>s || d\<close> for an optional string: undefined and the empty string give the default.\<close>

definition str_or :: "string option \<Rightarrow> string \<Rightarrow> string" where
  "str_or s d = (case s of None \<Rightarrow> d | Some x \<Rightarrow> if x = [] then d else x)"

datatype skill_kind = Template | Webhook | Code

text \<open>The fields of a \<^verbatim>\<open>skillRegistry\<close> document that the tool loader reads.\<close>

record skill =
  skill_id :: string
  skill_name :: string
  skill_description :: string
  skill_type :: skill_kind
  skill_templateId :: "string option"
  skill_config :: "string option"

text \<open>
  The result of \<^verbatim>\<open>checkSecurity\<close> (security.ts), of which the handlers read \<^verbatim>\<open>allowed\<close>,
  \<^verbatim>\<open>reason\<close> and \<^verbatim>\<open>code\<close>.
\<close>

record security_result =
  sec_allowed :: bool
  sec_reason :: jsval
  sec_code :: string

text \<open>The fourth argument of \<^verbatim>\<open>checkSecurity\<close>: absent, or \<^verbatim>\<open>{ domain }\<close> with an optional domain.\<close>

datatype sec_context = NoContext | DomainContext "string option"

text \<open>The argument of the mutation \<^verbatim>\<open>internal.skillInvocations.log\<close>: one audit record.\<close>

record log_record =
  log_skillName :: string
  log_skillType :: skill_kind
  log_input :: string
  log_output :: "string option"
  log_success :: bool
  log_errorMessage :: "string option"
  log_securityCheckResult :: string
  log_durationMs :: int
  log_timestamp :: int

text \<open>The two actions the skill handlers run, with their arguments.\<close>

datatype action_call =
    TemplateExecute "string option" string string
  | WebhookCaller string string string

text \<open>An HTTP request as passed to \<^verbatim>\<open>fetch\<close>. A \<open>JsonBody v\<close> is the text \<^verbatim>\<open>JSON.stringify(v)\<close>.\<close>

datatype body = NoBody | TextBody string | JsonBody jsval

record request =
  req_url :: string
  req_method :: string
  req_headers :: "(string \<times> string) list"
  req_body :: body

text \<open>
  What the code reads of a response: \<^verbatim>\<open>ok\<close>, \<^verbatim>\<open>status\<close>, \<^verbatim>\<open>statusText\<close>, the headers
  (with lower-case names, as \<^verbatim>\<open>Headers\<close> keeps them), \<^verbatim>\<open>url\<close>, and the outcome of
  \<^verbatim>\<open>await response.text()\<close>, which can throw.
\<close>

record response =
  resp_ok :: bool
  resp_status :: nat
  resp_statusText :: string
  resp_headers :: "(string \<times> string) list"
  resp_url :: string
  resp_text :: "thrown + string"

text \<open>
  The effects of a call, in the order they happen. An audit mutation that throws commits
  nothing (\<open>EvAuditFail\<close>); one that returns has inserted its record (\<open>EvAuditWrite\<close>).
\<close>

datatype event =
    EvNow int
  | EvSecurityCheck skill string sec_context
  | EvRunAction action_call
  | EvAuditWrite log_record
  | EvAuditFail log_record
  | EvFetch request
  | EvSetTimeout int
  | EvClearTimeout

text \<open>
  The outside world, as the functions it answers with. Each may depend on everything that
  happened before (the trace). \<^verbatim>\<open>checkSecurity\<close> and \<^verbatim>\<open>truncateForLog\<close> are imported from
  security.ts, \<^verbatim>\<open>JSON.parse\<close> and the \<^verbatim>\<open>URL\<close> constructor (read for the host name and
  for the protocol of a URL it accepts) are built in.
\<close>

record env =
  date_now :: "event list \<Rightarrow> int"
  checkSecurity :: "event list \<Rightarrow> skill \<Rightarrow> string \<Rightarrow> sec_context \<Rightarrow> thrown + security_result"
  runAction :: "event list \<Rightarrow> action_call \<Rightarrow> thrown + jsval"
  log_mutation :: "event list \<Rightarrow> log_record \<Rightarrow> thrown option"
  truncateForLog :: "jsval \<Rightarrow> string"
  fetch :: "event list \<Rightarrow> request \<Rightarrow> thrown + response"
  json_parse :: "string \<Rightarrow> thrown + jsval"
  url_hostname :: "jsval \<Rightarrow> thrown + string"
  url_protocol :: "string \<Rightarrow> thrown + string"

text \<open>The audit records a trace has written, and the other projections used below.\<close>

fun audit_records :: "event list \<Rightarrow> log_record list" where
  "audit_records [] = []"
| "audit_records (EvAuditWrite r # es) = r # audit_records es"
| "audit_records (e # es) = audit_records es"

fun clock_reads :: "event list \<Rightarrow> int list" where
  "clock_reads [] = []"
| "clock_reads (EvNow t # es) = t # clock_reads es"
| "clock_reads (e # es) = clock_reads es"

fun is_security_check :: "event \<Rightarrow> bool" where
  "is_security_check (EvSecurityCheck s i c) = True"
| "is_security_check e = False"

fun is_execution :: "event \<Rightarrow> bool" where
  "is_execution (EvRunAction a) = True"
| "is_execution (EvFetch r) = True"
| "is_execution e = False"


section \<open>Skill handlers (toolLoader)\<close>

text \<open>\<^verbatim>\<open>error instanceof Error ? error.message : 'Unknown error'\<close>\<close>

fun unknown_error_message :: "thrown \<Rightarrow> string" where
  "unknown_error_message (ErrorObj m) = m"
| "unknown_error_message (AbortError m) = m"
| "unknown_error_message (NonError s) = ''Unknown error''"

definition error_obj :: "jsval \<Rightarrow> jsval" where
  "error_obj v = JObj [(''error'', v)]"

text \<open>
  \<^verbatim>\<open>logInvocation\<close>: reads the clock for the duration, builds the record (reading the clock again
  for the timestamp) and runs the audit mutation. The output is recorded only when truthy.
\<close>

definition logInvocation ::
  "env \<Rightarrow> skill \<Rightarrow> jsval \<Rightarrow> jsval \<Rightarrow> bool \<Rightarrow> security_result \<Rightarrow> int \<Rightarrow> string option
     \<Rightarrow> event list \<Rightarrow> (thrown + unit) \<times> event list" where
  "logInvocation e skill input output success securityResult startTime errorMessage tr =
     (let t1 = date_now e tr;
          tr1 = tr @ [EvNow t1];
          durationMs = t1 - startTime;
          t2 = date_now e tr1;
          tr2 = tr1 @ [EvNow t2];
          r = \<lparr> log_skillName = skill_name skill,
                log_skillType = skill_type skill,
                log_input = truncateForLog e input,
                log_output = (if truthy output then Some (truncateForLog e output) else None),
                log_success = success,
                log_errorMessage = errorMessage,
                log_securityCheckResult = sec_code securityResult,
                log_durationMs = durationMs,
                log_timestamp = t2 \<rparr>
      in case log_mutation e tr2 r of
           None \<Rightarrow> (Inr (), tr2 @ [EvAuditWrite r])
         | Some x \<Rightarrow> (Inl x, tr2 @ [EvAuditFail r]))"

text \<open>
  The part the three handlers share after a passing check is written out in each of them, as
  in the source. \<open>tr\<close> is the trace before the call; the result is what the handler returns
  (\<open>Inr\<close>) or throws (\<open>Inl\<close>), with the trace after it.
\<close>

definition createTemplateSkillTool ::
  "env \<Rightarrow> skill \<Rightarrow> string \<Rightarrow> event list \<Rightarrow> (thrown + jsval) \<times> event list" where
  "createTemplateSkillTool e skill input tr =
     (let startTime = date_now e tr;
          tr1 = tr @ [EvNow startTime];
          tr2 = tr1 @ [EvSecurityCheck skill input NoContext]
      in case checkSecurity e tr1 skill input NoContext of
           Inl x \<Rightarrow> (Inl x, tr2)
         | Inr securityResult \<Rightarrow>
             if \<not> sec_allowed securityResult then
               (case logInvocation e skill (JStr input) JNull False securityResult startTime None tr2 of
                  (Inl x, tr3) \<Rightarrow> (Inl x, tr3)
                | (Inr u, tr3) \<Rightarrow> (Inr (error_obj (sec_reason securityResult)), tr3))
             else
               (let call = TemplateExecute (skill_templateId skill)
                             (str_or (skill_config skill) ''{}'') input;
                    tr3 = tr2 @ [EvRunAction call];
                    tried =
                      (case runAction e tr2 call of
                         Inl x \<Rightarrow> (Inl x, tr3)
                       | Inr result \<Rightarrow>
                           (case logInvocation e skill (JStr input) result True securityResult
                                   startTime None tr3 of
                              (Inl x, tr4) \<Rightarrow> (Inl x, tr4)
                            | (Inr u, tr4) \<Rightarrow> (Inr result, tr4)))
                in case tried of
                     (Inr v, tr5) \<Rightarrow> (Inr v, tr5)
                   | (Inl x, tr5) \<Rightarrow>
                       (let errorMessage = unknown_error_message x
                        in case logInvocation e skill (JStr input) JNull False securityResult
                                  startTime (Some errorMessage) tr5 of
                             (Inl y, tr6) \<Rightarrow> (Inl y, tr6)
                           | (Inr u, tr6) \<Rightarrow> (Inr (error_obj (JStr errorMessage)), tr6))))"

text \<open>
  Property read \<^verbatim>\<open>v.k\<close> on a value: throws on \<^verbatim>\<open>null\<close> and \<^verbatim>\<open>undefined\<close>, gives the member of
  an object, and \<^verbatim>\<open>undefined\<close> for a missing member. The names read in this file
  (\<^verbatim>\<open>url\<close>, \<^verbatim>\<open>result\<close>, \<^verbatim>\<open>tools\<close>, \<^verbatim>\<open>name\<close>, \<^verbatim>\<open>id\<close>, \<^verbatim>\<open>output\<close>, \<^verbatim>\<open>content\<close>) are not
  properties of numbers, booleans, strings or arrays.
\<close>

fun get_prop :: "jsval \<Rightarrow> string \<Rightarrow> thrown + jsval" where
  "get_prop JUndefined k =
     Inl (ErrorObj (''Cannot read properties of undefined (reading '' @ [CHR 0x27] @ k @ [CHR 0x27] @ '')''))"
| "get_prop JNull k =
     Inl (ErrorObj (''Cannot read properties of null (reading '' @ [CHR 0x27] @ k @ [CHR 0x27] @ '')''))"
| "get_prop (JObj kvs) k = (case map_of kvs k of None \<Rightarrow> Inr JUndefined | Some v \<Rightarrow> Inr v)"
| "get_prop v k = Inr JUndefined"

text \<open>
  The webhook handler first parses the skill's config and takes the host name of its
  \<^verbatim>\<open>url\<close>; both can throw, before the security check and outside any \<^verbatim>\<open>try\<close>.
\<close>

definition webhook_domain :: "env \<Rightarrow> skill \<Rightarrow> thrown + string option" where
  "webhook_domain e skill =
     (case (case skill_config skill of
              None \<Rightarrow> Inr (JObj [])
            | Some c \<Rightarrow> if c = [] then Inr (JObj []) else json_parse e c) of
        Inl x \<Rightarrow> Inl x
      | Inr config \<Rightarrow>
          (case get_prop config ''url'' of
             Inl x \<Rightarrow> Inl x
           | Inr u \<Rightarrow>
               if truthy u then
                 (case url_hostname e u of Inl x \<Rightarrow> Inl x | Inr h \<Rightarrow> Inr (Some h))
               else Inr None))"

definition createWebhookSkillTool ::
  "env \<Rightarrow> skill \<Rightarrow> string \<Rightarrow> event list \<Rightarrow> (thrown + jsval) \<times> event list" where
  "createWebhookSkillTool e skill input tr =
     (let startTime = date_now e tr;
          tr1 = tr @ [EvNow startTime]
      in case webhook_domain e skill of
           Inl x \<Rightarrow> (Inl x, tr1)
         | Inr domain \<Rightarrow>
          (let tr2 = tr1 @ [EvSecurityCheck skill input (DomainContext domain)]
           in case checkSecurity e tr1 skill input (DomainContext domain) of
           Inl x \<Rightarrow> (Inl x, tr2)
         | Inr securityResult \<Rightarrow>
             if \<not> sec_allowed securityResult then
               (case logInvocation e skill (JStr input) JNull False securityResult startTime None tr2 of
                  (Inl x, tr3) \<Rightarrow> (Inl x, tr3)
                | (Inr u, tr3) \<Rightarrow> (Inr (error_obj (sec_reason securityResult)), tr3))
             else
               (let call = WebhookCaller (str_or (skill_config skill) ''{}'') input (skill_id skill);
                    tr3 = tr2 @ [EvRunAction call];
                    tried =
                      (case runAction e tr2 call of
                         Inl x \<Rightarrow> (Inl x, tr3)
                       | Inr result \<Rightarrow>
                           (case logInvocation e skill (JStr input) result True securityResult
                                   startTime None tr3 of
                              (Inl x, tr4) \<Rightarrow> (Inl x, tr4)
                            | (Inr u, tr4) \<Rightarrow> (Inr result, tr4)))
                in case tried of
                     (Inr v, tr5) \<Rightarrow> (Inr v, tr5)
                   | (Inl x, tr5) \<Rightarrow>
                       (let errorMessage = unknown_error_message x
                        in case logInvocation e skill (JStr input) JNull False securityResult
                                  startTime (Some errorMessage) tr5 of
                             (Inl y, tr6) \<Rightarrow> (Inl y, tr6)
                           | (Inr u, tr6) \<Rightarrow> (Inr (error_obj (JStr errorMessage)), tr6)))))"

text \<open>The code skill runs no action: its result is a fixed sentence about the query.\<close>

definition code_skill_result :: "skill \<Rightarrow> string \<Rightarrow> string" where
  "code_skill_result skill query =
     ''Code skill '' @ [CHR 0x22] @ skill_name skill @ [CHR 0x22] @ '' executed with query: '' @ query"

definition createCodeSkillTool ::
  "env \<Rightarrow> skill \<Rightarrow> string \<Rightarrow> event list \<Rightarrow> (thrown + jsval) \<times> event list" where
  "createCodeSkillTool e skill query tr =
     (let startTime = date_now e tr;
          tr1 = tr @ [EvNow startTime];
          tr2 = tr1 @ [EvSecurityCheck skill query NoContext]
      in case checkSecurity e tr1 skill query NoContext of
           Inl x \<Rightarrow> (Inl x, tr2)
         | Inr securityResult \<Rightarrow>
             if \<not> sec_allowed securityResult then
               (case logInvocation e skill (JStr query) JNull False securityResult startTime None tr2 of
                  (Inl x, tr3) \<Rightarrow> (Inl x, tr3)
                | (Inr u, tr3) \<Rightarrow> (Inr (error_obj (sec_reason securityResult)), tr3))
             else
               (let result = code_skill_result skill query;
                    tried =
                      (case logInvocation e skill (JStr query) (JStr result) True securityResult
                              startTime None tr2 of
                         (Inl x, tr4) \<Rightarrow> (Inl x, tr4)
                       | (Inr u, tr4) \<Rightarrow> (Inr (JObj [(''result'', JStr result)]), tr4))
                in case tried of
                     (Inr v, tr5) \<Rightarrow> (Inr v, tr5)
                   | (Inl x, tr5) \<Rightarrow>
                       (let errorMessage = unknown_error_message x
                        in case logInvocation e skill (JStr query) JNull False securityResult
                                  startTime (Some errorMessage) tr5 of
                             (Inl y, tr6) \<Rightarrow> (Inl y, tr6)
                           | (Inr u, tr6) \<Rightarrow> (Inr (error_obj (JStr errorMessage)), tr6))))"

text \<open>\<^verbatim>\<open>createToolFromSkill\<close>: the handler of a skill, by its kind.\<close>

definition createToolFromSkill ::
  "env \<Rightarrow> skill \<Rightarrow> string \<Rightarrow> event list \<Rightarrow> (thrown + jsval) \<times> event list" where
  "createToolFromSkill e skill =
     (case skill_type skill of
        Template \<Rightarrow> createTemplateSkillTool e skill
      | Webhook \<Rightarrow> createWebhookSkillTool e skill
      | Code \<Rightarrow> createCodeSkillTool e skill)"

section \<open>Calling a tool of an MCP server (toolLoader, createMcpTool)\<close>

text \<open>Decimal digits of a number, as a template literal prints \<^verbatim>\<open>response.status\<close>.\<close>

fun dec :: "nat \<Rightarrow> string" where
  "dec n = (if n < 10 then [char_of (48 + n)] else dec (n div 10) @ [char_of (48 + n mod 10)])"

text \<open>
  \<^verbatim>\<open>responseText.match(/data: ({.+})/)\<close>. The dot matches any character but a line terminator and
  \<^verbatim>\<open>.+\<close> is greedy, so at a place where \<^verbatim>\<open>data: {\<close> stands the group runs to the last
  \<^verbatim>\<open>}\<close> of that line that has at least one character before it. The leftmost such place wins.
\<close>

definition line_terminator :: "char \<Rightarrow> bool" where
  "line_terminator c \<longleftrightarrow> c = CHR 0x0A \<or> c = CHR 0x0D"

definition sse_group_at :: "string \<Rightarrow> string option" where
  "sse_group_at rest =
     (let line = takeWhile (\<lambda>c. \<not> line_terminator c) rest
      in case filter (\<lambda>j. line ! j = CHR ''}'') (rev [1..<length line]) of
           [] \<Rightarrow> None
         | j # js \<Rightarrow> Some (CHR ''{'' # take (Suc j) line))"

fun sse_match :: "string \<Rightarrow> string option" where
  "sse_match [] = None"
| "sse_match (c # cs) =
     (if take 7 (c # cs) = ''data: {'' then
        (case sse_group_at (drop 7 (c # cs)) of
           Some g \<Rightarrow> Some g
         | None \<Rightarrow> sse_match cs)
      else sse_match cs)"

text \<open>\<^verbatim>\<open>e instanceof Error ? e : new Error(String(e))\<close>, and the message of the result.\<close>

fun as_error :: "thrown \<Rightarrow> thrown" where
  "as_error (ErrorObj m) = ErrorObj m"
| "as_error (AbortError m) = AbortError m"
| "as_error (NonError s) = ErrorObj s"


text \<open>\<^verbatim>\<open>serverUrl.replace(/\/?$/, '/tools/call')\<close>: one trailing slash, if any, is replaced.\<close>

definition tools_call_url :: "string \<Rightarrow> string" where
  "tools_call_url serverUrl =
     (if serverUrl \<noteq> [] \<and> last serverUrl = CHR ''/'' then butlast serverUrl else serverUrl)
       @ ''/tools/call''"

definition base_headers :: "(string \<times> string) list" where
  "base_headers =
     [(''Content-Type'', ''application/json''),
      (''Accept'', ''application/json, text/event-stream, */*''),
      (''User-Agent'', ''ClawSync-MCP-Client/1.0'')]"

text \<open>The headers of a call: the Authorization header is added for a non-empty API key.\<close>

definition call_headers :: "string option \<Rightarrow> (string \<times> string) list" where
  "call_headers apiKey =
     (case apiKey of
        None \<Rightarrow> base_headers
      | Some k \<Rightarrow> if k = [] then base_headers
                  else base_headers @ [(''Authorization'', ''Bearer '' @ k)])"

definition tools_call_request :: "string \<Rightarrow> string option \<Rightarrow> jsval \<Rightarrow> jsval \<Rightarrow> request" where
  "tools_call_request url apiKey toolName args =
     \<lparr> req_url = url, req_method = ''POST'', req_headers = call_headers apiKey,
       req_body = JsonBody (JObj
         [(''jsonrpc'', JStr ''2.0''),
          (''method'', JStr ''tools/call''),
          (''params'', JObj [(''name'', toolName), (''arguments'', args)]),
          (''id'', JNum 1)]) \<rparr>"

text \<open>The outcome of one pass of the loop over \<^verbatim>\<open>urlsToTry\<close>: a value to return, or \<^verbatim>\<open>lastError\<close>.\<close>

datatype attempt = Returned jsval | Failed thrown

text \<open>
  The different response formats: \<^verbatim>\<open>result\<close>, \<^verbatim>\<open>output\<close>, \<^verbatim>\<open>content\<close>, or the data itself.
  Reading a property of \<^verbatim>\<open>null\<close> throws, which the loop's \<^verbatim>\<open>catch\<close> turns into \<^verbatim>\<open>lastError\<close>.
\<close>

definition unwrap_response :: "jsval \<Rightarrow> attempt" where
  "unwrap_response data =
     (case get_prop data ''result'' of
        Inl x \<Rightarrow> Failed (as_error x)
      | Inr r \<Rightarrow>
          if r \<noteq> JUndefined then Returned r
          else (case get_prop data ''output'' of
                  Inl x \<Rightarrow> Failed (as_error x)
                | Inr out \<Rightarrow>
                    if out \<noteq> JUndefined then Returned out
                    else (case get_prop data ''content'' of
                            Inl x \<Rightarrow> Failed (as_error x)
                          | Inr c \<Rightarrow> if c \<noteq> JUndefined then Returned c else Returned data)))"

definition mcp_attempt ::
  "env \<Rightarrow> string option \<Rightarrow> jsval \<Rightarrow> jsval \<Rightarrow> string \<Rightarrow> event list \<Rightarrow> attempt \<times> event list" where
  "mcp_attempt e apiKey toolName args url tr =
     (let req = tools_call_request url apiKey toolName args;
          tr1 = tr @ [EvFetch req]
      in case fetch e tr req of
           Inl x \<Rightarrow> (Failed (as_error x), tr1)
         | Inr response \<Rightarrow>
             if \<not> resp_ok response then
               (case resp_text response of
                  Inl x \<Rightarrow> (Failed (as_error x), tr1)
                | Inr errorText \<Rightarrow>
                    (Failed (ErrorObj (''HTTP '' @ dec (resp_status response) @ '': ''
                                         @ take 200 errorText)), tr1))
             else
               (case resp_text response of
                  Inl x \<Rightarrow> (Failed (as_error x), tr1)
                | Inr responseText \<Rightarrow>
                    (case json_parse e responseText of
                       Inr data \<Rightarrow> (unwrap_response data, tr1)
                     | Inl x \<Rightarrow>
                         (case sse_match responseText of
                            Some g \<Rightarrow>
                              (case json_parse e g of
                                 Inr data \<Rightarrow> (unwrap_response data, tr1)
                               | Inl y \<Rightarrow> (Failed (ErrorObj ''Invalid SSE format''), tr1))
                          | None \<Rightarrow> (Failed (ErrorObj ''Non-JSON response''), tr1)))))"

text \<open>
  \<^verbatim>\<open>for (const url of urlsToTry)\<close>: stops at the first value returned; after the last URL it
  throws \<^verbatim>\<open>lastError\<close>, or \<^verbatim>\<open>new Error('All MCP endpoints failed')\<close> when there is none.
\<close>

fun try_urls ::
  "env \<Rightarrow> string option \<Rightarrow> jsval \<Rightarrow> jsval \<Rightarrow> string list \<Rightarrow> thrown option \<Rightarrow> event list
     \<Rightarrow> (thrown + jsval) \<times> event list" where
  "try_urls e apiKey toolName args [] lastError tr =
     (case lastError of
        None \<Rightarrow> (Inl (ErrorObj ''All MCP endpoints failed''), tr)
      | Some x \<Rightarrow> (Inl x, tr))"
| "try_urls e apiKey toolName args (url # urls) lastError tr =
     (case mcp_attempt e apiKey toolName args url tr of
        (Returned v, tr1) \<Rightarrow> (Inr v, tr1)
      | (Failed x, tr1) \<Rightarrow> try_urls e apiKey toolName args urls (Some x) tr1)"

text \<open>\<^verbatim>\<open>mcpTool.name || mcpTool.id || 'unknown'\<close>; reading a property of \<^verbatim>\<open>null\<close> throws.\<close>

definition mcp_toolName :: "jsval \<Rightarrow> thrown + jsval" where
  "mcp_toolName mcpTool =
     (case get_prop mcpTool ''name'' of
        Inl x \<Rightarrow> Inl x
      | Inr n \<Rightarrow>
          if truthy n then Inr n
          else (case get_prop mcpTool ''id'' of
                  Inl x \<Rightarrow> Inl x
                | Inr i \<Rightarrow> if truthy i then Inr i else Inr (JStr ''unknown'')))"

text \<open>\<^verbatim>\<open>error instanceof Error ? error.message : 'MCP tool call failed'\<close>\<close>

fun mcp_error_message :: "thrown \<Rightarrow> string" where
  "mcp_error_message (ErrorObj m) = m"
| "mcp_error_message (AbortError m) = m"
| "mcp_error_message (NonError s) = ''MCP tool call failed''"

text \<open>
  The handler of the tool made by \<^verbatim>\<open>createMcpTool\<close>, for the tool name computed when the tool
  was made. It begins (inside the outer \<^verbatim>\<open>try\<close>) by logging
  \<^verbatim>\<open>JSON.stringify(args).slice(0, 200)\<close>, which throws when \<^verbatim>\<open>args\<close> is \<^verbatim>\<open>undefined\<close>. The handler
  never throws: the outer \<^verbatim>\<open>catch\<close> returns \<^verbatim>\<open>{ error }\<close>.
\<close>

definition mcp_handler ::
  "env \<Rightarrow> string \<Rightarrow> jsval \<Rightarrow> string option \<Rightarrow> jsval \<Rightarrow> event list \<Rightarrow> jsval \<times> event list" where
  "mcp_handler e serverUrl toolName apiKey args tr =
     (if args = JUndefined then
        (error_obj (JStr ''Cannot read properties of undefined (reading 'slice')''), tr)
      else
        (let urlsToTry = [serverUrl, tools_call_url serverUrl]
         in case try_urls e apiKey toolName args urlsToTry None tr of
              (Inr v, tr1) \<Rightarrow> (v, tr1)
            | (Inl x, tr1) \<Rightarrow> (error_obj (JStr (mcp_error_message x)), tr1)))"

text \<open>
  \<^verbatim>\<open>createMcpTool(serverUrl, mcpTool, serverName, apiKey)\<close>: making the tool reads
  \<^verbatim>\<open>mcpTool\<close>'s properties (and throws for \<^verbatim>\<open>null\<close>); the result is the handler.
\<close>

definition createMcpTool ::
  "env \<Rightarrow> string \<Rightarrow> jsval \<Rightarrow> string \<Rightarrow> string option
     \<Rightarrow> thrown + (jsval \<Rightarrow> event list \<Rightarrow> jsval \<times> event list)" where
  "createMcpTool e serverUrl mcpTool serverName apiKey =
     (case mcp_toolName mcpTool of
        Inl x \<Rightarrow> Inl x
      | Inr toolName \<Rightarrow> Inr (mcp_handler e serverUrl toolName apiKey))"

text \<open>
  Following the specification's words: what the answer of one endpoint amounts to. An
  endpoint succeeds when the POST returns a response with an ok status whose body can be
  read and is a JSON document, or holds one on a \<^verbatim>\<open>data: {...}\<close> line, and the document is
  not \<^verbatim>\<open>null\<close>; the value of the call is then the document's member \<^verbatim>\<open>result\<close>, else
  \<^verbatim>\<open>output\<close>, else \<^verbatim>\<open>content\<close>, else the document itself. In every other case the endpoint
  fails, with the error the client keeps as its last error.
\<close>

definition member :: "jsval \<Rightarrow> string \<Rightarrow> jsval" where
  "member d k = (case d of JObj kvs \<Rightarrow> (case map_of kvs k of Some v \<Rightarrow> v | None \<Rightarrow> JUndefined)
                 | _ \<Rightarrow> JUndefined)"

definition document :: "env \<Rightarrow> string \<Rightarrow> jsval option" where
  "document e t =
     (case json_parse e t of
        Inr d \<Rightarrow> Some d
      | Inl x \<Rightarrow>
          (case sse_match t of
             None \<Rightarrow> None
           | Some g \<Rightarrow> (case json_parse e g of Inr d \<Rightarrow> Some d | Inl y \<Rightarrow> None)))"



section \<open>What an audited call looks like\<close>

text \<open>
  A skill call with result \<open>res\<close> and trace \<open>tr\<close> (observed from its start) is audited when
  it has written at most one audit record and, if the handler returned a value \<open>v\<close>, exactly
  one: written as the last effect of the call, after a security check that was the first
  effect after reading the clock, and holding the skill's name and kind, the clock read
  for the log minus the clock read at the start, the truncated input, the security result's
  code, and either the success flag with the truncated output (no output when it is falsy)
  or the failure flag with no output. The output of a returned value is the value itself,
  and for a code skill its \<^verbatim>\<open>result\<close> member.
\<close>

definition skill_output :: "skill \<Rightarrow> jsval \<Rightarrow> jsval" where
  "skill_output skill v =
     (if skill_type skill = Code
      then (case get_prop v ''result'' of Inr out \<Rightarrow> out | Inl x \<Rightarrow> JUndefined)
      else v)"

definition audited ::
  "env \<Rightarrow> skill \<Rightarrow> string \<Rightarrow> (thrown + jsval) \<Rightarrow> event list \<Rightarrow> bool" where
  "audited e skill input res tr \<longleftrightarrow>
     length (audit_records tr) \<le> 1 \<and>
     (\<forall>v. res = Inr v \<longrightarrow>
        (\<exists>r ctx sec.
           audit_records tr = [r]
           \<and> last tr = EvAuditWrite r
           \<and> tr ! 1 = EvSecurityCheck skill input ctx
           \<and> checkSecurity e (take 1 tr) skill input ctx = Inr sec
           \<and> log_skillName r = skill_name skill
           \<and> log_skillType r = skill_type skill
           \<and> log_durationMs r
                = clock_reads tr ! (length (clock_reads tr) - 2) - hd (clock_reads tr)
           \<and> log_timestamp r = last (clock_reads tr)
           \<and> log_input r = truncateForLog e (JStr input)
           \<and> log_securityCheckResult r = sec_code sec
           \<and> (if log_success r
               then sec_allowed sec
                    \<and> log_output r
                        = (if truthy (skill_output skill v)
                           then Some (truncateForLog e (skill_output skill v)) else None)
               else log_output r = None \<and> (\<exists>m. v = error_obj m))))"

fun is_error_obj :: "thrown \<Rightarrow> bool" where
  "is_error_obj (ErrorObj m) = True"
| "is_error_obj (AbortError m) = True"
| "is_error_obj (NonError s) = False"

section \<open>Concrete worlds for evaluation\<close>

text \<open>\<^verbatim>\<open>JSON.parse\<close> on the few texts the examples below use; any other text is taken as not JSON.\<close>

definition tools_a_text :: string where
  "tools_a_text = ''{\"result\":{\"tools\":[{\"name\":\"web search\"},{\"name\":\"lookup\"}]}}''"

definition tools_a_json :: jsval where
  "tools_a_json =
     JObj [(''result'', JObj [(''tools'',
       JArr [JObj [(''name'', JStr ''web search'')], JObj [(''name'', JStr ''lookup'')]])])]"

definition tools_c_text :: string where
  "tools_c_text = ''{\"tools\":[{\"name\":\"web_fetch\"}]}''"

definition tools_c_json :: jsval where
  "tools_c_json = JObj [(''tools'', JArr [JObj [(''name'', JStr ''web_fetch'')]])]"

text \<open>The body of a JSON-RPC error response.\<close>

definition rpc_error_text :: string where
  "rpc_error_text =
     ''{\"jsonrpc\":\"2.0\",\"error\":{\"code\":-32601,\"message\":\"Method not found\"},\"id\":1}''"

definition rpc_error_json :: jsval where
  "rpc_error_json =
     JObj [(''jsonrpc'', JStr ''2.0''),
           (''error'', JObj [(''code'', JNum (- 32601)), (''message'', JStr ''Method not found'')]),
           (''id'', JNum 1)]"

definition demo_json_parse :: "string \<Rightarrow> thrown + jsval" where
  "demo_json_parse s =
     (if s = ''{\"result\":\"ok\"}'' then Inr (JObj [(''result'', JStr ''ok'')])
      else if s = ''{}'' then Inr (JObj [])
      else if s = rpc_error_text then Inr rpc_error_json
      else if s = tools_a_text then Inr tools_a_json
      else if s = tools_c_text then Inr tools_c_json
      else Inl (ErrorObj ''Unexpected token''))"

text \<open>A 200 response with a JSON content type and the given body.\<close>

definition ok_response :: "string \<Rightarrow> string \<Rightarrow> response" where
  "ok_response url body =
     \<lparr> resp_ok = True, resp_status = 200, resp_statusText = ''OK'',
       resp_headers = [(''content-type'', ''application/json'')], resp_url = url,
       resp_text = Inr body \<rparr>"

text \<open>The protocol of the few URLs of the examples; any other text is taken as no URL.\<close>

definition demo_url_protocol :: "string \<Rightarrow> thrown + string" where
  "demo_url_protocol u =
     (if take 7 u = ''http://'' then Inr ''http:''
      else if take 8 u = ''https://'' then Inr ''https:''
      else if take 7 u = ''file://'' then Inr ''file:''
      else Inl (ErrorObj ''Invalid URL''))"

definition demo_truncate :: "jsval \<Rightarrow> string" where
  "demo_truncate v = (case v of JStr s \<Rightarrow> take 1000 s | _ \<Rightarrow> ''[value]'')"

text \<open>
  A world where the clock advances with every effect, the security check allows, actions
  and mutations succeed, and every HTTP request is answered 200 with a JSON-RPC result.
\<close>

definition demo_world :: env where
  "demo_world =
     \<lparr> date_now = (\<lambda>tr. 1000 + int (length tr)),
       checkSecurity = (\<lambda>tr s i c.
         Inr \<lparr> sec_allowed = True, sec_reason = JUndefined, sec_code = ''allowed'' \<rparr>),
       runAction = (\<lambda>tr a. Inr (JStr ''done'')),
       log_mutation = (\<lambda>tr r. None),
       truncateForLog = demo_truncate,
       fetch = (\<lambda>tr r.
         Inr (ok_response (req_url r) ''{\"result\":\"ok\"}'')),
       json_parse = demo_json_parse,
       url_hostname = (\<lambda>v. Inl (ErrorObj ''Invalid URL'')),
       url_protocol = demo_url_protocol \<rparr>"




definition demo_skill :: skill where
  "demo_skill =
     \<lparr> skill_id = ''k2'', skill_name = ''echo'', skill_description = ''Echo the query'',
       skill_type = Code, skill_templateId = None, skill_config = None \<rparr>"

section \<open>Assembling the tool set (toolLoader, loadTools)\<close>

text \<open>What \<^verbatim>\<open>api.mcpServers.getEnabledApproved\<close> returns of a server, and \<^verbatim>\<open>api.agents.list\<close> of an agent.\<close>

record mcp_server =
  srv_id :: string
  srv_name :: string
  srv_url :: "string option"
  srv_apiKeyEnvVar :: "string option"

record agent =
  agent_id :: string
  agent_name :: string
  agent_status :: string

text \<open>
  A tool of the tool set, by the function that made it: a skill's tool, a tool proxied to an
  MCP server (\<^verbatim>\<open>createMcpTool(server.url, mcpTool, server.name, apiKey)\<close>), a built-in tool, or
  a tool that asks another agent (\<^verbatim>\<open>createAgentTool(ctx, agentId, peer._id, peer.name)\<close>).
\<close>

datatype tool =
    SkillTool skill
  | McpTool string jsval string "string option"
  | BuiltinTool string
  | AgentTool string string string

text \<open>
  The tool set is a plain object; its own entries are kept as an association list, an
  assignment \<^verbatim>\<open>tools[k] = v\<close> being \<open>AList.update k v\<close>.
\<close>

type_synonym toolset = "(string \<times> tool) list"

text \<open>
  \<^verbatim>\<open>if (tools[safeName])\<close> is true for an own entry (every tool is an object) and for the
  properties every plain object inherits.
\<close>

definition object_prototype_keys :: "string list" where
  "object_prototype_keys =
     [''constructor'', ''hasOwnProperty'', ''isPrototypeOf'', ''propertyIsEnumerable'',
      ''toLocaleString'', ''toString'', ''valueOf'', ''__defineGetter__'', ''__defineSetter__'',
      ''__lookupGetter__'', ''__lookupSetter__'', ''__proto__'']"

definition has_entry :: "toolset \<Rightarrow> string \<Rightarrow> bool" where
  "has_entry tools k \<longleftrightarrow> map_of tools k \<noteq> None \<or> k \<in> set object_prototype_keys"

text \<open>The messages written to the console while loading, by the call that writes them.\<close>

datatype console_msg =
    LogFoundServers nat
  | LogNoUrl string
  | LogFetching string string
  | LogUsingKeyForDiscovery string string
  | WarnKeyNotSet string string
  | ErrStatus string nat
  | ErrResponseBody string
  | ErrNonJson string string
  | LogResponse string jsval
  | LogToolCount string jsval
  | LogRegistering jsval string
  | LogConflict string
  | LogLoadedKey string string
  | ErrFailedTools string thrown
  | ErrFailedServers thrown

text \<open>
  What the queries of a run answer, and the process environment. A query can throw.
  (\<^verbatim>\<open>internal.agentAssignments.getAgentSkillIds\<close>, \<^verbatim>\<open>getAgentMcpIds\<close>,
  \<^verbatim>\<open>internal.skillRegistry.getActiveApproved\<close>, \<^verbatim>\<open>api.mcpServers.getEnabledApproved\<close>,
  \<^verbatim>\<open>api.agents.list\<close>, \<^verbatim>\<open>process.env\<close>.)
\<close>

record registry =
  getAgentSkillIds :: "string \<Rightarrow> thrown + string list"
  getAgentMcpIds :: "string \<Rightarrow> thrown + string list"
  getActiveApproved :: "thrown + skill list"
  getEnabledApproved :: "thrown + mcp_server list"
  agents_list :: "thrown + agent list"
  process_env :: "string \<Rightarrow> string option"

text \<open>The state of a run: the tool set so far, the console, and the trace of effects.\<close>

record loader =
  ld_tools :: toolset
  ld_console :: "console_msg list"
  ld_trace :: "event list"

definition say :: "console_msg \<Rightarrow> loader \<Rightarrow> loader" where
  "say m ld = ld \<lparr> ld_console := ld_console ld @ [m] \<rparr>"

text \<open>\<^verbatim>\<open>if (x)\<close> for an optional string: defined and not empty.\<close>

fun truthy_str :: "string option \<Rightarrow> bool" where
  "truthy_str None = False"
| "truthy_str (Some s) = (s \<noteq> [])"

text \<open>
  The loop over the skills: a skill outside the allowed set (when there is one) is passed
  over; every other skill is registered under its sanitized name. \<^verbatim>\<open>createToolFromSkill\<close>
  gives a tool for each of the three kinds.
\<close>

fun load_skills :: "string list option \<Rightarrow> skill list \<Rightarrow> toolset \<Rightarrow> toolset" where
  "load_skills allowedSkillIds [] tools = tools"
| "load_skills allowedSkillIds (skill # skills) tools =
     (case allowedSkillIds of
        Some ids \<Rightarrow>
          if skill_id skill \<notin> set ids then load_skills allowedSkillIds skills tools
          else load_skills allowedSkillIds skills
                 (AList.update (safeName (skill_name skill)) (SkillTool skill) tools)
      | None \<Rightarrow>
          load_skills allowedSkillIds skills
            (AList.update (safeName (skill_name skill)) (SkillTool skill) tools))"

text \<open>The headers of the discovery requests: the API key of the server's environment variable.\<close>

definition discovery_headers :: "registry \<Rightarrow> mcp_server \<Rightarrow> (string \<times> string) list" where
  "discovery_headers reg server =
     (case srv_apiKeyEnvVar server of
        None \<Rightarrow> base_headers
      | Some var \<Rightarrow>
          if var = [] then base_headers
          else if truthy_str (process_env reg var)
               then base_headers @ [(''Authorization'', ''Bearer '' @ the (process_env reg var))]
               else base_headers)"

definition discovery_key_messages :: "registry \<Rightarrow> mcp_server \<Rightarrow> console_msg list" where
  "discovery_key_messages reg server =
     (case srv_apiKeyEnvVar server of
        None \<Rightarrow> []
      | Some var \<Rightarrow>
          if var = [] then []
          else if truthy_str (process_env reg var)
               then [LogUsingKeyForDiscovery (srv_name server) var]
               else [WarnKeyNotSet var (srv_name server)])"

definition tools_list_post :: "string \<Rightarrow> (string \<times> string) list \<Rightarrow> request" where
  "tools_list_post url headers =
     \<lparr> req_url = url, req_method = ''POST'', req_headers = headers,
       req_body = JsonBody (JObj
         [(''jsonrpc'', JStr ''2.0''),
          (''method'', JStr ''tools/list''),
          (''params'', JObj []),
          (''id'', JNum 1)]) \<rparr>"

text \<open>The fallback: same URL, same headers without \<^verbatim>\<open>Content-Type\<close>, no body.\<close>

definition tools_list_get :: "string \<Rightarrow> (string \<times> string) list \<Rightarrow> request" where
  "tools_list_get url headers =
     \<lparr> req_url = url, req_method = ''GET'',
       req_headers = filter (\<lambda>kv. fst kv \<noteq> ''Content-Type'') headers,
       req_body = NoBody \<rparr>"

text \<open>\<^verbatim>\<open>response = await fetch(...); responseText = await response.text()\<close>: either can throw.\<close>

definition read_response :: "thrown + response \<Rightarrow> thrown + response \<times> string" where
  "read_response r =
     (case r of
        Inl x \<Rightarrow> Inl x
      | Inr response \<Rightarrow>
          (case resp_text response of Inl x \<Rightarrow> Inl x | Inr t \<Rightarrow> Inr (response, t)))"

text \<open>
  The POST, and the GET in the \<^verbatim>\<open>catch\<close> of the POST. What the GET throws leaves the
  server's \<^verbatim>\<open>try\<close> block.
\<close>

definition fetch_tools_list ::
  "env \<Rightarrow> string \<Rightarrow> (string \<times> string) list \<Rightarrow> event list
     \<Rightarrow> (thrown + response \<times> string) \<times> event list" where
  "fetch_tools_list e url headers tr =
     (let post = tools_list_post url headers;
          tr1 = tr @ [EvFetch post]
      in case read_response (fetch e tr post) of
           Inr rt \<Rightarrow> (Inr rt, tr1)
         | Inl x \<Rightarrow>
             (let get = tools_list_get url headers;
                  tr2 = tr1 @ [EvFetch get]
              in (read_response (fetch e tr1 get), tr2)))"

text \<open>
  Parsing the body: as JSON; else the JSON of a \<^verbatim>\<open>data: {...}\<close> line, and \<^verbatim>\<open>{ tools: [] }\<close>
  when that is not JSON either; else nothing (\<open>None\<close>, the server is passed over).
\<close>

definition parse_tools_response :: "env \<Rightarrow> string \<Rightarrow> jsval option" where
  "parse_tools_response e responseText =
     (case json_parse e responseText of
        Inr data \<Rightarrow> Some data
      | Inl x \<Rightarrow>
          (case sse_match responseText of
             Some g \<Rightarrow>
               (case json_parse e g of
                  Inr data \<Rightarrow> Some data
                | Inl y \<Rightarrow> Some (JObj [(''tools'', JArr [])]))
           | None \<Rightarrow> None))"

text \<open>\<^verbatim>\<open>data.result?.tools || data.tools || []\<close>\<close>

definition mcp_tools_of :: "jsval \<Rightarrow> thrown + jsval" where
  "mcp_tools_of data =
     (case get_prop data ''result'' of
        Inl x \<Rightarrow> Inl x
      | Inr r \<Rightarrow>
          (let rt = (if r = JUndefined \<or> r = JNull then JUndefined
                     else (case get_prop r ''tools'' of Inr t \<Rightarrow> t | Inl x \<Rightarrow> JUndefined))
           in if truthy rt then Inr rt
              else (case get_prop data ''tools'' of
                      Inl x \<Rightarrow> Inl x
                    | Inr t \<Rightarrow> if truthy t then Inr t else Inr (JArr []))))"

text \<open>
  \<^verbatim>\<open>for (const mcpTool of mcpTools)\<close>: an array gives its elements, a string its characters;
  a number, a boolean or an object is not iterable.
\<close>

definition iterate :: "jsval \<Rightarrow> thrown + jsval list" where
  "iterate v =
     (case v of
        JArr xs \<Rightarrow> Inr xs
      | JStr s \<Rightarrow> Inr (map (\<lambda>c. JStr [c]) s)
      | _ \<Rightarrow> Inl (ErrorObj ''mcpTools is not iterable''))"

text \<open>The API key of a tool, resolved when the tool is made, with its console message.\<close>

definition tool_api_key :: "registry \<Rightarrow> mcp_server \<Rightarrow> string option" where
  "tool_api_key reg server =
     (case srv_apiKeyEnvVar server of
        None \<Rightarrow> None
      | Some var \<Rightarrow> if var = [] then None else process_env reg var)"

definition tool_key_messages :: "registry \<Rightarrow> mcp_server \<Rightarrow> console_msg list" where
  "tool_key_messages reg server =
     (case srv_apiKeyEnvVar server of
        None \<Rightarrow> []
      | Some var \<Rightarrow>
          if var = [] then []
          else if truthy_str (process_env reg var)
               then [LogLoadedKey (srv_name server) var]
               else [WarnKeyNotSet var (srv_name server)])"

text \<open>
  The loop over a server's tools. \<^verbatim>\<open>toolName.replace\<close> throws unless the tool's \<^verbatim>\<open>name\<close> is a
  string (a missing name is \<^verbatim>\<open>undefined\<close>, which has no properties; a number, a boolean, an
  array or an object has no \<^verbatim>\<open>replace\<close> to call), and a throw ends the loop with the earlier
  tools registered.
\<close>

fun register_mcp_tools ::
  "registry \<Rightarrow> mcp_server \<Rightarrow> string \<Rightarrow> jsval list \<Rightarrow> loader \<Rightarrow> thrown option \<times> loader" where
  "register_mcp_tools reg server url [] ld = (None, ld)"
| "register_mcp_tools reg server url (mcpTool # rest) ld =
     (case get_prop mcpTool ''name'' of
        Inl x \<Rightarrow> (Some x, ld)
      | Inr (JStr toolName) \<Rightarrow>
          (let safe = safeName toolName;
               ld1 = say (LogRegistering (JStr toolName) safe) ld;
               ld2 = (if has_entry (ld_tools ld1) safe then say (LogConflict safe) ld1 else ld1);
               ld3 = ld2 \<lparr> ld_console := ld_console ld2 @ tool_key_messages reg server \<rparr>;
               ld4 = ld3 \<lparr> ld_tools :=
                       AList.update safe
                         (McpTool url mcpTool (srv_name server) (tool_api_key reg server))
                         (ld_tools ld3) \<rparr>
           in register_mcp_tools reg server url rest ld4)
      | Inr JUndefined \<Rightarrow>
          (Some (ErrorObj ''Cannot read properties of undefined (reading 'replace')''), ld)
      | Inr JNull \<Rightarrow>
          (Some (ErrorObj ''Cannot read properties of null (reading 'replace')''), ld)
      | Inr other \<Rightarrow> (Some (ErrorObj ''toolName.replace is not a function''), ld))"

text \<open>The \<^verbatim>\<open>try\<close> block of one server, for a server with the URL \<open>url\<close> that is in scope.\<close>

definition discover_server ::
  "env \<Rightarrow> registry \<Rightarrow> mcp_server \<Rightarrow> string \<Rightarrow> loader \<Rightarrow> thrown option \<times> loader" where
  "discover_server e reg server url ld =
     (let ld1 = ld \<lparr> ld_console := ld_console ld
                   @ [LogFetching (srv_name server) url] @ discovery_key_messages reg server \<rparr>
      in case fetch_tools_list e url (discovery_headers reg server) (ld_trace ld1) of
           (Inl x, tr) \<Rightarrow> (Some x, ld1 \<lparr> ld_trace := tr \<rparr>)
         | (Inr (response, responseText), tr) \<Rightarrow>
             (let ld2 = ld1 \<lparr> ld_trace := tr \<rparr>
              in if \<not> resp_ok response then
                   (None, ld2 \<lparr> ld_console := ld_console ld2
                      @ [ErrStatus (srv_name server) (resp_status response),
                         ErrResponseBody (take 500 responseText)] \<rparr>)
                 else
                   (case parse_tools_response e responseText of
                      None \<Rightarrow> (None, say (ErrNonJson (srv_name server) (take 200 responseText)) ld2)
                    | Some data \<Rightarrow>
                        (let ld3 = say (LogResponse (srv_name server) data) ld2
                         in case mcp_tools_of data of
                              Inl x \<Rightarrow> (Some x, ld3)
                            | Inr mcpTools \<Rightarrow>
                                (let ld4 = say (LogToolCount (srv_name server) mcpTools) ld3
                                 in case iterate mcpTools of
                                      Inl x \<Rightarrow> (Some x, ld4)
                                    | Inr items \<Rightarrow>
                                        register_mcp_tools reg server url items ld4)))))"


text \<open>
  One pass of the loop over the servers: a server with no URL and a server outside the
  allowed set are passed over; what the \<^verbatim>\<open>try\<close> block throws is written to the console.
\<close>

definition load_server ::
  "env \<Rightarrow> registry \<Rightarrow> string list option \<Rightarrow> mcp_server \<Rightarrow> loader \<Rightarrow> loader" where
  "load_server e reg allowedMcpIds server ld =
     (if \<not> truthy_str (srv_url server) then say (LogNoUrl (srv_name server)) ld
      else if (case allowedMcpIds of Some ids \<Rightarrow> srv_id server \<notin> set ids | None \<Rightarrow> False)
      then ld
      else (case discover_server e reg server (the (srv_url server)) ld of
              (None, ld1) \<Rightarrow> ld1
            | (Some x, ld1) \<Rightarrow> say (ErrFailedTools (srv_name server) x) ld1))"

fun load_servers ::
  "env \<Rightarrow> registry \<Rightarrow> string list option \<Rightarrow> mcp_server list \<Rightarrow> loader \<Rightarrow> loader" where
  "load_servers e reg allowedMcpIds [] ld = ld"
| "load_servers e reg allowedMcpIds (server # servers) ld =
     load_servers e reg allowedMcpIds servers (load_server e reg allowedMcpIds server ld)"

text \<open>The outer \<^verbatim>\<open>try\<close>: the query for the servers, the loop, and the \<^verbatim>\<open>catch\<close> of the query.\<close>

definition load_mcp :: "env \<Rightarrow> registry \<Rightarrow> string list option \<Rightarrow> loader \<Rightarrow> loader" where
  "load_mcp e reg allowedMcpIds ld =
     (case getEnabledApproved reg of
        Inl x \<Rightarrow> say (ErrFailedServers x) ld
      | Inr mcpServers \<Rightarrow>
          load_servers e reg allowedMcpIds mcpServers
            (say (LogFoundServers (length mcpServers)) ld))"

text \<open>The tools that are always added, in the order of their assignments.\<close>

definition builtin_names :: "string list" where
  "builtin_names =
     [''list_available_models'', ''switch_model'', ''get_current_model'', ''generate_image'',
      ''generate_pdf'', ''send_telegram_message'', ''send_email'', ''post_tweet'',
      ''schedule_task'', ''list_tools'', ''list_scheduled_tasks'', ''delete_scheduled_task'',
      ''toggle_scheduled_task'', ''web_fetch'', ''get_current_date'']"

definition add_builtins :: "toolset \<Rightarrow> toolset" where
  "add_builtins tools = fold (\<lambda>n. AList.update n (BuiltinTool n)) builtin_names tools"

text \<open>
  The tools that ask the other agents:
  \<^verbatim>\<open>`ask_agent_${peer.name.replace(/[^a-zA-Z0-9_-]/g, '_').slice(0, 100)}`\<close>.
\<close>

definition peer_key :: "agent \<Rightarrow> string" where
  "peer_key peer = ''ask_agent_'' @ take 100 (replace_invalid (agent_name peer))"

definition peer_agents :: "registry \<Rightarrow> string \<Rightarrow> agent list" where
  "peer_agents reg agentId =
     (case agents_list reg of
        Inl x \<Rightarrow> []
      | Inr allAgents \<Rightarrow>
          filter (\<lambda>a. agent_id a \<noteq> agentId \<and> agent_status a \<noteq> ''error'') allAgents)"

definition add_agent_tools :: "registry \<Rightarrow> string option \<Rightarrow> toolset \<Rightarrow> toolset" where
  "add_agent_tools reg agentId tools =
     (if truthy_str agentId
      then fold (\<lambda>peer. AList.update (peer_key peer)
                          (AgentTool (the agentId) (agent_id peer) (agent_name peer)))
             (peer_agents reg (the agentId)) tools
      else tools)"

text \<open>
  The allowed sets of a run: none without an agent identifier, else what the two
  assignment queries answer. A query that throws makes \<^verbatim>\<open>loadTools\<close> throw.
\<close>

definition allowed_ids ::
  "registry \<Rightarrow> string option \<Rightarrow> thrown + string list option \<times> string list option" where
  "allowed_ids reg agentId =
     (if truthy_str agentId then
        (case getAgentSkillIds reg (the agentId) of
           Inl x \<Rightarrow> Inl x
         | Inr skillIds \<Rightarrow>
             (case getAgentMcpIds reg (the agentId) of
                Inl x \<Rightarrow> Inl x
              | Inr mcpIds \<Rightarrow> Inr (Some skillIds, Some mcpIds)))
      else Inr (None, None))"

text \<open>
  \<^verbatim>\<open>loadTools(ctx, agentId)\<close>, from an empty tool set: the skills, the MCP servers, the
  built-in tools, the tools of the other agents. The result carries the console and the
  trace of the run with the tool set.
\<close>

definition loadTools :: "env \<Rightarrow> registry \<Rightarrow> string option \<Rightarrow> thrown + loader" where
  "loadTools e reg agentId =
     (case allowed_ids reg agentId of
        Inl x \<Rightarrow> Inl x
      | Inr (allowedSkillIds, allowedMcpIds) \<Rightarrow>
          (case getActiveApproved reg of
             Inl x \<Rightarrow> Inl x
           | Inr skills \<Rightarrow>
               (let tools1 = load_skills allowedSkillIds skills [];
                    ld2 = load_mcp e reg allowedMcpIds
                            \<lparr> ld_tools = tools1, ld_console = [], ld_trace = [] \<rparr>;
                    tools3 = add_builtins (ld_tools ld2);
                    tools4 = add_agent_tools reg agentId tools3
                in Inr (ld2 \<lparr> ld_tools := tools4 \<rparr>))))"


text \<open>
  The invariant of the loop over the servers, for the tool set \<open>tools1\<close> the skills left:
  no key is lost, and a key under which an MCP tool was registered (the console says so)
  holds an MCP tool, with the conflict on the console when a skill had the key.
\<close>

definition mcp_inv :: "toolset \<Rightarrow> loader \<Rightarrow> bool" where
  "mcp_inv tools1 ld \<longleftrightarrow>
     (\<forall>k. map_of tools1 k \<noteq> None \<longrightarrow> map_of (ld_tools ld) k \<noteq> None)
     \<and> (\<forall>k n. LogRegistering n k \<in> set (ld_console ld) \<longrightarrow>
           (\<exists>u t m a. map_of (ld_tools ld) k = Some (McpTool u t m a))
           \<and> (map_of tools1 k \<noteq> None \<longrightarrow> LogConflict k \<in> set (ld_console ld)))"


section \<open>The tool set in the specification's words\<close>

text \<open>
  Following the specification's words. Discovery asks a server with the JSON-RPC 2.0
  \<^verbatim>\<open>tools/list\<close> POST, and with a plain GET of the same URL when the POST (or the reading of
  its body) throws. The answer it goes by is the POST's when that one could be read, and the
  GET's otherwise, if that one could.
\<close>

definition discovery_post :: "registry \<Rightarrow> mcp_server \<Rightarrow> string \<Rightarrow> request" where
  "discovery_post reg server url =
     \<lparr> req_url = url, req_method = ''POST'', req_headers = discovery_headers reg server,
       req_body = JsonBody (JObj
         [(''jsonrpc'', JStr ''2.0''), (''method'', JStr ''tools/list''),
          (''params'', JObj []), (''id'', JNum 1)]) \<rparr>"

definition discovery_get :: "registry \<Rightarrow> mcp_server \<Rightarrow> string \<Rightarrow> request" where
  "discovery_get reg server url =
     \<lparr> req_url = url, req_method = ''GET'',
       req_headers = filter (\<lambda>kv. fst kv \<noteq> ''Content-Type'') (discovery_headers reg server),
       req_body = NoBody \<rparr>"

definition readable :: "thrown + response \<Rightarrow> (response \<times> string) option" where
  "readable r =
     (case r of
        Inl x \<Rightarrow> None
      | Inr resp \<Rightarrow> (case resp_text resp of Inl x \<Rightarrow> None | Inr t \<Rightarrow> Some (resp, t)))"

definition discovery_answer ::
  "env \<Rightarrow> event list \<Rightarrow> request \<Rightarrow> request \<Rightarrow> (response \<times> string) option" where
  "discovery_answer e tr post get =
     (case readable (fetch e tr post) of
        Some a \<Rightarrow> Some a
      | None \<Rightarrow> readable (fetch e (tr @ [EvFetch post]) get))"

definition discovery_events ::
  "env \<Rightarrow> event list \<Rightarrow> request \<Rightarrow> request \<Rightarrow> event list" where
  "discovery_events e tr post get =
     (case readable (fetch e tr post) of
        Some a \<Rightarrow> [EvFetch post]
      | None \<Rightarrow> [EvFetch post, EvFetch get])"

text \<open>
  The tools a document lists: the \<^verbatim>\<open>tools\<close> of its \<^verbatim>\<open>result\<close>, else its own \<^verbatim>\<open>tools\<close>, else
  none. The tools an answer lists are those of its document, when the status is ok and the
  body is a JSON document or holds one on a \<^verbatim>\<open>data: {...}\<close> line, and the list is an array.
\<close>

definition listed :: "jsval \<Rightarrow> jsval" where
  "listed d =
     (if truthy (member (member d ''result'') ''tools'') then member (member d ''result'') ''tools''
      else if truthy (member d ''tools'') then member d ''tools''
      else JArr [])"

definition discovered :: "env \<Rightarrow> (response \<times> string) option \<Rightarrow> jsval list" where
  "discovered e a =
     (case a of
        None \<Rightarrow> []
      | Some (resp, t) \<Rightarrow>
          if \<not> resp_ok resp then []
          else (case document e t of
                  None \<Rightarrow> []
                | Some d \<Rightarrow>
                    if d = JNull \<or> d = JUndefined then []
                    else (case listed d of JArr items \<Rightarrow> items | _ \<Rightarrow> [])))"

text \<open>A listed tool has a name when its \<^verbatim>\<open>name\<close> is a string.\<close>

definition named :: "jsval \<Rightarrow> bool" where
  "named item \<longleftrightarrow> (case member item ''name'' of JStr n \<Rightarrow> True | _ \<Rightarrow> False)"

definition name_of :: "jsval \<Rightarrow> string" where
  "name_of item = (case member item ''name'' of JStr n \<Rightarrow> n | _ \<Rightarrow> [])"

text \<open>
  What a server in scope is asked, and the tools it serves: those its answer lists, up to the
  first one without a name.
\<close>

definition asked :: "env \<Rightarrow> registry \<Rightarrow> mcp_server \<Rightarrow> string \<Rightarrow> event list \<Rightarrow> event list" where
  "asked e reg server url tr =
     discovery_events e tr (discovery_post reg server url) (discovery_get reg server url)"

definition served :: "env \<Rightarrow> registry \<Rightarrow> mcp_server \<Rightarrow> string \<Rightarrow> event list \<Rightarrow> jsval list" where
  "served e reg server url tr =
     takeWhile named
       (discovered e
          (discovery_answer e tr (discovery_post reg server url) (discovery_get reg server url)))"

text \<open>
  A registration is a key with the tool assigned to it. A skill that is loaded registers its
  tool under its sanitized name, a tool served by a server in scope registers the MCP tool
  under its sanitized name, then come the built-in tools and the tools that ask the other
  agents. A server is in scope when it has a URL and, when the run has an agent identifier,
  is assigned to the agent; the servers are asked one after the other.
\<close>

definition skill_registrations :: "string list option \<Rightarrow> skill list \<Rightarrow> (string \<times> tool) list" where
  "skill_registrations allowedSkillIds skills =
     map (\<lambda>s. (safeName (skill_name s), SkillTool s))
       (filter (\<lambda>s. case allowedSkillIds of None \<Rightarrow> True | Some ids \<Rightarrow> skill_id s \<in> set ids)
          skills)"

definition mcp_registration :: "registry \<Rightarrow> mcp_server \<Rightarrow> string \<Rightarrow> jsval \<Rightarrow> string \<times> tool" where
  "mcp_registration reg server url item =
     (safeName (name_of item), McpTool url item (srv_name server) (tool_api_key reg server))"

fun mcp_registrations ::
  "env \<Rightarrow> registry \<Rightarrow> string list option \<Rightarrow> mcp_server list \<Rightarrow> event list
     \<Rightarrow> (string \<times> tool) list" where
  "mcp_registrations e reg allowedMcpIds [] tr = []"
| "mcp_registrations e reg allowedMcpIds (server # servers) tr =
     (case srv_url server of
        None \<Rightarrow> mcp_registrations e reg allowedMcpIds servers tr
      | Some url \<Rightarrow>
          if url = [] then mcp_registrations e reg allowedMcpIds servers tr
          else if (case allowedMcpIds of None \<Rightarrow> True | Some ids \<Rightarrow> srv_id server \<in> set ids)
          then map (mcp_registration reg server url) (served e reg server url tr)
                 @ mcp_registrations e reg allowedMcpIds servers (tr @ asked e reg server url tr)
          else mcp_registrations e reg allowedMcpIds servers tr)"


definition builtin_registrations :: "(string \<times> tool) list" where
  "builtin_registrations = map (\<lambda>n. (n, BuiltinTool n)) builtin_names"

definition agent_registrations :: "registry \<Rightarrow> string option \<Rightarrow> (string \<times> tool) list" where
  "agent_registrations reg agentId =
     (case agentId of
        None \<Rightarrow> []
      | Some a \<Rightarrow>
          if a = [] then []
          else map (\<lambda>peer. (peer_key peer, AgentTool a (agent_id peer) (agent_name peer)))
                 (peer_agents reg a))"

text \<open>The tool set a list of registrations leaves: a later registration replaces an earlier one.\<close>

definition assign :: "(string \<times> tool) list \<Rightarrow> toolset \<Rightarrow> toolset" where
  "assign regs tools = fold (\<lambda>kv. AList.update (fst kv) (snd kv)) regs tools"

section \<open>A concrete registry for evaluation\<close>

text \<open>A server-sent-events body: an event line, the data line, an empty line.\<close>

definition sse_text :: string where
  "sse_text = ''event: message'' @ [CHR 0x0A] @ ''data: '' @ tools_a_text @ [CHR 0x0A, CHR 0x0A]"

text \<open>
  Server A answers the POST with its two tools, server C with one tool named as a built-in
  tool, the third server throws on POST and answers the GET with a server-sent-events body.
\<close>

definition loader_world :: env where
  "loader_world =
     demo_world \<lparr> fetch := (\<lambda>tr r.
       if req_url r = ''http://a.test/mcp''
       then Inr (ok_response (req_url r) tools_a_text)
       else if req_url r = ''http://c.test/mcp''
       then Inr (ok_response (req_url r) tools_c_text)
       else if req_url r = ''http://sse.test/mcp'' \<and> req_method r = ''GET''
       then Inr (ok_response (req_url r) sse_text)
       else Inl (ErrorObj ''fetch failed'')) \<rparr>"

definition skill_search :: skill where
  "skill_search =
     \<lparr> skill_id = ''k1'', skill_name = ''web search'', skill_description = ''Search the web'',
       skill_type = Template, skill_templateId = Some ''search'', skill_config = None \<rparr>"

definition skill_fetch :: skill where
  "skill_fetch =
     \<lparr> skill_id = ''k3'', skill_name = ''web_fetch'', skill_description = ''Fetch a page'',
       skill_type = Code, skill_templateId = None, skill_config = None \<rparr>"

definition server_a :: mcp_server where
  "server_a = \<lparr> srv_id = ''m1'', srv_name = ''A'', srv_url = Some ''http://a.test/mcp'',
                 srv_apiKeyEnvVar = None \<rparr>"

definition server_local :: mcp_server where
  "server_local = \<lparr> srv_id = ''m2'', srv_name = ''local'', srv_url = None,
                     srv_apiKeyEnvVar = None \<rparr>"

definition server_c :: mcp_server where
  "server_c = \<lparr> srv_id = ''m3'', srv_name = ''C'', srv_url = Some ''http://c.test/mcp'',
                 srv_apiKeyEnvVar = None \<rparr>"


text \<open>
  Three skills and three servers are approved; every agent is assigned the first two skills
  and server A.
\<close>

definition demo_registry :: registry where
  "demo_registry =
     \<lparr> getAgentSkillIds = (\<lambda>a. Inr [''k1'', ''k2'']),
       getAgentMcpIds = (\<lambda>a. Inr [''m1'']),
       getActiveApproved = Inr [skill_search, demo_skill, skill_fetch],
       getEnabledApproved = Inr [server_a, server_local, server_c],
       agents_list = Inr [\<lparr> agent_id = ''agent1'', agent_name = ''main'', agent_status = ''idle'' \<rparr>,
                          \<lparr> agent_id = ''agent2'', agent_name = ''helper'', agent_status = ''idle'' \<rparr>],
       process_env = (\<lambda>v. None) \<rparr>"


definition empty_loader :: loader where
  "empty_loader = \<lparr> ld_tools = [], ld_console = [], ld_trace = [] \<rparr>"

text \<open>The loader a run returns (the empty one for a run that throws).\<close>

definition loaded :: "thrown + loader \<Rightarrow> loader" where
  "loaded r = (case r of Inr ld \<Rightarrow> ld | Inl x \<Rightarrow> empty_loader)"


definition unscoped_run :: loader where
  "unscoped_run = loaded (loadTools loader_world demo_registry None)"

section \<open>The web fetch tool (tools/webFetch, createWebFetchTool)\<close>

text \<open>
  The argument object of the handler. The timeout is a number of milliseconds, taken here
  as an integer.
\<close>

record fetch_args =
  fa_url :: string
  fa_method :: "string option"
  fa_headers :: "(string \<times> string) list option"
  fa_body :: "string option"
  fa_timeout :: "int option"

definition dec_int :: "int \<Rightarrow> string" where
  "dec_int i = (if i < 0 then CHR ''-'' # dec (nat (- i)) else dec (nat i))"

text \<open>\<^verbatim>\<open>s.includes(sub)\<close>\<close>

definition str_includes :: "string \<Rightarrow> string \<Rightarrow> bool" where
  "str_includes s sub = list_ex (\<lambda>i. take (length sub) (drop i s) = sub) [0..<Suc (length s)]"

definition invalid_protocol_result :: jsval where
  "invalid_protocol_result =
     JObj [(''success'', JBool False), (''error'', JStr ''Invalid protocol''),
           (''message'', JStr ''Only HTTP and HTTPS URLs are supported.'')]"

definition invalid_url_result :: jsval where
  "invalid_url_result =
     JObj [(''success'', JBool False), (''error'', JStr ''Invalid URL''),
           (''message'', JStr ''Please provide a valid URL.'')]"

text \<open>The \<^verbatim>\<open>catch\<close> of the request: a timeout, a blocked redirect, or any other failure.\<close>

definition fetch_failure_result :: "thrown \<Rightarrow> int \<Rightarrow> jsval" where
  "fetch_failure_result x finalTimeout =
     (case x of
        AbortError m \<Rightarrow>
          JObj [(''success'', JBool False), (''error'', JStr ''Request timeout''),
                (''message'', JStr (''The request timed out after '' @ dec_int finalTimeout @ ''ms.''))]
      | ErrorObj m \<Rightarrow>
          if str_includes m ''redirect'' then
            JObj [(''success'', JBool False), (''error'', JStr ''Redirect blocked''),
                  (''message'', JStr ''The URL redirects to another location. For security, redirects are not allowed.'')]
          else
            JObj [(''success'', JBool False), (''error'', JStr m),
                  (''message'', JStr ''Failed to fetch the URL. Please check the URL is valid and accessible.'')]
      | NonError v \<Rightarrow>
          JObj [(''success'', JBool False), (''error'', JStr ''Unknown error''),
                (''message'', JStr ''Failed to fetch the URL. Please check the URL is valid and accessible.'')])"

text \<open>The result for a response whose body \<open>text\<close> was read.\<close>

definition fetch_response_result :: "env \<Rightarrow> string \<Rightarrow> response \<Rightarrow> string \<Rightarrow> jsval" where
  "fetch_response_result e url response text =
     (let contentType = str_or (map_of (resp_headers response) ''content-type'') [];
          truncated = (length text > 100 * 1024);
          truncatedText = (if truncated
                           then take (100 * 1024) text
                                  @ [CHR 0x0A] @ ''...[truncated: response exceeds 100KB]''
                           else text);
          data = (if str_includes contentType ''application/json''
                  then (case json_parse e truncatedText of Inr d \<Rightarrow> d | Inl x \<Rightarrow> JNull)
                  else JNull);
          fields =
            [(''success'', JBool (resp_ok response)),
             (''status'', JNum (int (resp_status response))),
             (''statusText'', JStr (resp_statusText response)),
             (''headers'', JObj (map (\<lambda>kv. (fst kv, JStr (snd kv))) (resp_headers response))),
             (''url'', JStr (resp_url response)),
             (''contentType'', JStr contentType),
             (''body'', JStr truncatedText),
             (''size'', JNum (int (length text))),
             (''truncated'', JBool truncated)]
            @ (if data \<noteq> JNull then [(''data'', data)] else [])
      in if \<not> resp_ok response then
           JObj (fields @
             [(''error'', JStr (''HTTP '' @ dec (resp_status response) @ '': '' @ resp_statusText response)),
              (''message'', JStr (''Request failed with status '' @ dec (resp_status response) @ ''.''))])
         else
           JObj (fields @
             [(''message'', JStr (''Successfully fetched '' @ url @ ''. Response size: ''
                                   @ dec (length text) @ '' bytes.''))]))"

text \<open>
  The handler. The URL is validated first, by the \<^verbatim>\<open>URL\<close> constructor and its protocol; the
  timer is set to \<^verbatim>\<open>Math.min(timeout, 60000)\<close> and the request is made (with
  \<^verbatim>\<open>redirect: 'error'\<close> and the timer's abort signal, which are not fields of the request).
\<close>

definition web_fetch :: "env \<Rightarrow> fetch_args \<Rightarrow> event list \<Rightarrow> jsval \<times> event list" where
  "web_fetch e args tr =
     (let url = fa_url args;
          method = (case fa_method args of None \<Rightarrow> ''GET'' | Some m \<Rightarrow> m);
          headers = (case fa_headers args of None \<Rightarrow> [] | Some h \<Rightarrow> h);
          body = fa_body args;
          timeout = (case fa_timeout args of None \<Rightarrow> 30000 | Some t \<Rightarrow> t)
      in case url_protocol e url of
           Inl x \<Rightarrow> (invalid_url_result, tr)
         | Inr protocol \<Rightarrow>
             if protocol \<noteq> ''http:'' \<and> protocol \<noteq> ''https:'' then (invalid_protocol_result, tr)
             else
               (let finalTimeout = min timeout 60000;
                    tr1 = tr @ [EvSetTimeout finalTimeout];
                    req = \<lparr> req_url = url, req_method = method,
                            req_headers = fold (\<lambda>kv. AList.update (fst kv) (snd kv)) headers
                                            [(''User-Agent'', ''ClawSync-HTTP-Client/1.0'')],
                            req_body = (if truthy_str body then TextBody (the body) else NoBody) \<rparr>;
                    tr2 = tr1 @ [EvFetch req]
                in case fetch e tr1 req of
                     Inl x \<Rightarrow> (fetch_failure_result x finalTimeout, tr2)
                   | Inr response \<Rightarrow>
                       (let tr3 = tr2 @ [EvClearTimeout]
                        in case resp_text response of
                             Inl x \<Rightarrow> (fetch_failure_result x finalTimeout, tr3)
                           | Inr text \<Rightarrow> (fetch_response_result e url response text, tr3))))"

text \<open>The timers a trace has set.\<close>

fun timeouts :: "event list \<Rightarrow> int list" where
  "timeouts [] = []"
| "timeouts (EvSetTimeout t # es) = t # timeouts es"
| "timeouts (e # es) = timeouts es"

section \<open>Switching the model (agent/modelSwitching, switchModel)\<close>

text \<open>
  The stored state the action touches: the model and provider of the agent configuration
  (if there is one) and the activity log.
\<close>

record agent_config =
  cfg_model :: string
  cfg_modelProvider :: string

record activity =
  act_actionType :: string
  act_summary :: string
  act_visibility :: string

record store =
  st_config :: "agent_config option"
  st_activity :: "activity list"

datatype mutation_call = ConfigUpdate string string | ActivityLog activity

text \<open>
  What the action calls: the query \<^verbatim>\<open>internal.agentConfig.getConfig\<close>, the provider list of
  \<^verbatim>\<open>getAvailableProviders()\<close> (modelRouter; the identifiers), and the mutations
  \<^verbatim>\<open>internal.agentConfig.update\<close> (with the model and the provider) and
  \<^verbatim>\<open>internal.activityLog.log\<close>, each of which returns the new state or throws.
\<close>

record model_env =
  getConfig :: "store \<Rightarrow> thrown + agent_config option"
  getAvailableProviders :: "string list"
  agentConfig_update :: "store \<Rightarrow> string \<Rightarrow> string \<Rightarrow> thrown + store"
  activityLog_log :: "store \<Rightarrow> activity \<Rightarrow> thrown + store"

record switch_result =
  sr_success :: bool
  sr_message :: string
  sr_previousModel :: "string option"
  sr_newModel :: "string option"

text \<open>\<^verbatim>\<open>xs.join(sep)\<close>\<close>

fun join :: "string \<Rightarrow> string list \<Rightarrow> string" where
  "join sep [] = []"
| "join sep [x] = x"
| "join sep (x # y # ys) = x @ sep @ join sep (y # ys)"

definition switch_failed :: "thrown \<Rightarrow> switch_result" where
  "switch_failed x =
     \<lparr> sr_success = False,
       sr_message = ''Failed to switch model: ''
         @ (case x of ErrorObj m \<Rightarrow> m | AbortError m \<Rightarrow> m | NonError v \<Rightarrow> ''Unknown error''),
       sr_previousModel = None, sr_newModel = None \<rparr>"

text \<open>
  The handler: result, state afterwards, and the mutations called, in order. A mutation that
  throws leaves the state as it was before it.
\<close>

definition switchModel ::
  "model_env \<Rightarrow> string \<Rightarrow> string \<Rightarrow> store \<Rightarrow> switch_result \<times> store \<times> mutation_call list" where
  "switchModel me provider model st =
     (case getConfig me st of
        Inl x \<Rightarrow> (switch_failed x, st, [])
      | Inr config \<Rightarrow>
          (let previousModel = (case config of None \<Rightarrow> ''unknown'' | Some c \<Rightarrow> cfg_model c);
               providers = getAvailableProviders me
           in if find (\<lambda>p. p = provider) providers = None then
                (\<lparr> sr_success = False,
                   sr_message = ''Invalid provider: '' @ provider @ ''. Available: ''
                                  @ join '', '' providers,
                   sr_previousModel = None, sr_newModel = None \<rparr>, st, [])
              else
                (case agentConfig_update me st model provider of
                   Inl x \<Rightarrow> (switch_failed x, st, [ConfigUpdate model provider])
                 | Inr st1 \<Rightarrow>
                     (let entry = \<lparr> act_actionType = ''model_switch'',
                                     act_summary = ''Switched from '' @ previousModel @ '' to ''
                                                     @ provider @ ''/'' @ model,
                                     act_visibility = ''private'' \<rparr>
                      in case activityLog_log me st1 entry of
                           Inl x \<Rightarrow> (switch_failed x, st1,
                                       [ConfigUpdate model provider, ActivityLog entry])
                         | Inr st2 \<Rightarrow>
                             (\<lparr> sr_success = True,
                                sr_message = ''Successfully switched to '' @ provider @ ''/'' @ model
                                   @ ''. The next message will use the new model.'',
                                sr_previousModel = Some previousModel,
                                sr_newModel = Some model \<rparr>,
                              st2, [ConfigUpdate model provider, ActivityLog entry])))))"

text \<open>A store with a configuration, and mutations that do what their names say.\<close>

definition demo_store :: store where
  "demo_store =
     \<lparr> st_config = Some \<lparr> cfg_model = ''claude-sonnet-4-20250514'', cfg_modelProvider = ''anthropic'' \<rparr>,
       st_activity = [] \<rparr>"

definition demo_model_env :: model_env where
  "demo_model_env =
     \<lparr> getConfig = (\<lambda>st. Inr (st_config st)),
       getAvailableProviders = [''anthropic'', ''openai'', ''openrouter'', ''xai''],
       agentConfig_update = (\<lambda>st m p.
         Inr (st \<lparr> st_config := Some \<lparr> cfg_model = m, cfg_modelProvider = p \<rparr> \<rparr>)),
       activityLog_log = (\<lambda>st a. Inr (st \<lparr> st_activity := st_activity st @ [a] \<rparr>)) \<rparr>"

section \<open>Properties of the sanitized key\<close>

lemma set_collapse_underscores: "set (collapse_underscores s) \<subseteq> set s"
  by (induction s rule: collapse_underscores.induct) auto

lemma collapse_underscores_Cons:
  "collapse_underscores (c # s) \<noteq> [] \<and> hd (collapse_underscores (c # s)) = c"
  by (induction "c # s" arbitrary: c s rule: collapse_underscores.induct) auto

lemma no_run_collapse_underscores: "no_run CHR ''_'' (collapse_underscores s)"
proof (induction s rule: collapse_underscores.induct)
  case (3 c d s)
  obtain t where t: "collapse_underscores (d # s) = d # t"
    using collapse_underscores_Cons[of d s] by (cases "collapse_underscores (d # s)") auto
  with 3 show ?case by auto
qed simp_all

lemma no_run_take: "no_run c s \<Longrightarrow> no_run c (take n s)"
proof (induction c s arbitrary: n rule: no_run.induct)
  case (3 c x y s)
  show ?case
  proof (cases n)
    case (Suc m)
    then show ?thesis using 3(1)[of m] 3(2) by (cases m) auto
  qed simp
qed (auto simp: take_Cons')

lemma collapse_underscores_keep:
  "c \<noteq> CHR ''_'' \<Longrightarrow> collapse_underscores (c # s) = c # collapse_underscores s"
  by (cases s) auto

lemma collapse_replace_canonical:
  "collapse_underscores (replace_invalid n) = canonical False n
   \<and> collapse_underscores (CHR ''_'' # replace_invalid n) = CHR ''_'' # canonical True n"
proof (induction n)
  case Nil
  then show ?case by (simp add: replace_invalid_def)
next
  case (Cons c n)
  have r: "replace_invalid (c # n) = (if name_char c then c else CHR ''_'') # replace_invalid n"
    by (simp add: replace_invalid_def)
  show ?case
  proof (cases "name_char c \<and> c \<noteq> CHR ''_''")
    case True
    then show ?thesis using Cons by (simp add: r collapse_underscores_keep)
  next
    case False
    then have "replace_invalid (c # n) = CHR ''_'' # replace_invalid n"
      by (auto simp: r)
    then show ?thesis using Cons False by auto
  qed
qed

lemma collapse_underscores_id: "no_run CHR ''_'' s \<Longrightarrow> collapse_underscores s = s"
  by (induction s rule: collapse_underscores.induct) auto

lemma replace_invalid_id: "set s \<subseteq> Collect name_char \<Longrightarrow> replace_invalid s = s"
  by (induction s) (auto simp: replace_invalid_def)

lemma collapse_underscores_empty: "collapse_underscores s = [] \<longleftrightarrow> s = []"
  using collapse_underscores_Cons by (cases s) auto

text \<open>
  C4 (as the code has it). For every name, the key \<open>safeName n\<close> is the first 128 characters
  of the name's canonical form: letters, digits and hyphens kept as they are, and every
  maximal run of other characters and underscores written as one underscore. So the key
  consists only of letters, digits, underscores and hyphens, has no two neighbouring
  underscores, is at most 128 characters long, and is empty only for the empty name. Hyphens
  are not collapsed: a name of allowed characters with no two neighbouring underscores is
  only cut at 128 characters, whatever runs of hyphens it has.
\<close>

theorem safeName_charset_collapsed_bounded:
  "safeName n = take 128 (canonical False n)
   \<and> set (safeName n) \<subseteq> Collect name_char
   \<and> no_run CHR ''_'' (safeName n)
   \<and> length (safeName n) \<le> 128
   \<and> (safeName n = [] \<longleftrightarrow> n = [])
   \<and> (set n \<subseteq> Collect name_char \<and> no_run CHR ''_'' n \<longrightarrow> safeName n = take 128 n)"
proof -
  have "set (collapse_underscores (replace_invalid n)) \<subseteq> Collect name_char"
    using set_collapse_underscores[of "replace_invalid n"]
    by (auto simp: replace_invalid_def name_char_def)
  then have cs: "set (safeName n) \<subseteq> Collect name_char"
    unfolding safeName_def using set_take_subset by fast
  have can: "safeName n = take 128 (canonical False n)"
    by (simp add: safeName_def collapse_replace_canonical)
  have emp: "safeName n = [] \<longleftrightarrow> n = []"
    by (simp add: safeName_def collapse_underscores_empty replace_invalid_def)
  have valid: "set n \<subseteq> Collect name_char \<and> no_run CHR ''_'' n \<longrightarrow> safeName n = take 128 n"
    by (simp add: safeName_def replace_invalid_id collapse_underscores_id)
  have nr: "no_run CHR ''_'' (safeName n)"
    by (simp add: safeName_def no_run_take no_run_collapse_underscores)
  have len: "length (safeName n) \<le> 128" by (simp add: safeName_def)
  show ?thesis
    using can cs nr len emp valid by (intro conjI)
qed

theorem safeName_charset_collapsed_bounded_witness:
  "set ''get-weather--v2'' \<subseteq> Collect name_char
   \<and> no_run CHR ''_'' ''get-weather--v2''
   \<and> safeName ''get-weather--v2'' = ''get-weather--v2''
   \<and> safeName ''web  search (v2)__beta'' = ''web_search_v2_beta''
   \<and> safeName (replicate 127 CHR ''a'' @ ''--'') = replicate 127 CHR ''a'' @ ''-''"
proof -
  have a: "set ''get-weather--v2'' \<subseteq> Collect name_char" by code_simp
  have b: "no_run CHR ''_'' ''get-weather--v2''" by code_simp
  have c: "safeName ''web  search (v2)__beta'' = ''web_search_v2_beta''" by code_simp
  have d: "safeName (replicate 127 CHR ''a'' @ ''--'') = replicate 127 CHR ''a'' @ ''-''" by code_simp
  from safeName_charset_collapsed_bounded[of "''get-weather--v2''"] a b
  have "safeName ''get-weather--v2'' = take 128 ''get-weather--v2''" by blast
  then show ?thesis using a b c d by simp
qed

text \<open>
  C4 (as the specification words it) fails for the hyphen, which is a separator of the
  permitted alphabet: the name \<open>a--b\<close> is registered unchanged, with its run of two hyphens.
\<close>

theorem safeName_keeps_hyphen_run:
  "safeName ''a--b'' = ''a--b'' \<and> \<not> no_run CHR ''-'' (safeName ''a--b'')"
  by (simp add: safeName_def replace_invalid_def name_char_def)

section \<open>Skill calls are audited\<close>

lemma audit_records_append: "audit_records (xs @ ys) = audit_records xs @ audit_records ys"
  by (induction xs rule: audit_records.induct) auto

lemma clock_reads_append: "clock_reads (xs @ ys) = clock_reads xs @ clock_reads ys"
  by (induction xs rule: clock_reads.induct) auto

lemma template_audited:
  assumes "createTemplateSkillTool e skill input [] = (res, tr)" "skill_type skill = Template"
  shows "audited e skill input res tr"
  using assms unfolding audited_def createTemplateSkillTool_def logInvocation_def
  by (auto simp: Let_def audit_records_append clock_reads_append numeral_2_eq_2 skill_output_def
           split: sum.splits if_splits option.splits prod.splits)

lemma webhook_audited:
  assumes "createWebhookSkillTool e skill input [] = (res, tr)" "skill_type skill = Webhook"
  shows "audited e skill input res tr"
  using assms unfolding audited_def createWebhookSkillTool_def logInvocation_def
  by (auto simp: Let_def audit_records_append clock_reads_append numeral_2_eq_2 skill_output_def
           split: sum.splits if_splits option.splits prod.splits)

lemma code_skill_result_nonempty: "code_skill_result skill q \<noteq> []"
  by (simp add: code_skill_result_def)

lemma code_audited:
  assumes "createCodeSkillTool e skill input [] = (res, tr)" "skill_type skill = Code"
  shows "audited e skill input res tr"
  using assms unfolding audited_def createCodeSkillTool_def logInvocation_def
  by (auto simp: Let_def audit_records_append clock_reads_append numeral_2_eq_2 code_skill_result_nonempty skill_output_def
           split: sum.splits if_splits option.splits prod.splits)

lemma skill_audited:
  assumes "createToolFromSkill e skill input [] = (res, tr)"
  shows "audited e skill input res tr"
  using assms template_audited webhook_audited code_audited
  by (cases "skill_type skill") (simp_all add: createToolFromSkill_def)

section \<open>Calls of MCP tools\<close>

lemma mcp_attempt_trace:
  "snd (mcp_attempt e apiKey toolName args url tr)
     = tr @ [EvFetch (tools_call_request url apiKey toolName args)]"
  by (simp add: mcp_attempt_def Let_def split: sum.splits option.splits)

lemma try_urls_audit:
  "audit_records (snd (try_urls e apiKey toolName args urls lastError tr)) = audit_records tr
   \<and> filter is_security_check (snd (try_urls e apiKey toolName args urls lastError tr))
       = filter is_security_check tr"
proof (induction urls arbitrary: lastError tr)
  case Nil
  then show ?case by (simp split: option.splits)
next
  case (Cons url urls)
  obtain a tr1 where a: "mcp_attempt e apiKey toolName args url tr = (a, tr1)"
    by (cases "mcp_attempt e apiKey toolName args url tr")
  then have tr1: "tr1 = tr @ [EvFetch (tools_call_request url apiKey toolName args)]"
    using mcp_attempt_trace[of e apiKey toolName args url tr] by simp
  show ?case
  proof (cases a)
    case (Returned v)
    then show ?thesis using a tr1 by (simp add: audit_records_append)
  next
    case (Failed x)
    then show ?thesis using a tr1 Cons.IH[of "Some x" tr1] by (simp add: audit_records_append)
  qed
qed

lemma mcp_handler_audit:
  "audit_records (snd (mcp_handler e serverUrl toolName apiKey args tr)) = audit_records tr
   \<and> filter is_security_check (snd (mcp_handler e serverUrl toolName apiKey args tr))
       = filter is_security_check tr"
  using try_urls_audit[of e apiKey toolName args "[serverUrl, tools_call_url serverUrl]" None tr]
  by (auto simp: mcp_handler_def Let_def split: prod.splits sum.splits)

lemma as_error_is_error [simp]: "is_error_obj (as_error x)"
  by (cases x) auto







text \<open>
  C2. A call of an MCP-proxied tool writes no audit record. The call below posts the request
  to the server and returns the server's result; its trace holds the request and nothing
  else, so no record of the call (duration, input, output, success flag, security code)
  exists. A skill call in the same world writes its one record, shown for comparison.
\<close>

theorem mcp_call_writes_no_audit_record:
  "mcp_handler demo_world ''http://mcp.test/rpc'' (JStr ''search'') None (JObj []) []
     = (JStr ''ok'',
        [EvFetch \<lparr> req_url = ''http://mcp.test/rpc'', req_method = ''POST'',
           req_headers = [(''Content-Type'', ''application/json''),
                          (''Accept'', ''application/json, text/event-stream, */*''),
                          (''User-Agent'', ''ClawSync-MCP-Client/1.0'')],
           req_body = JsonBody (JObj
             [(''jsonrpc'', JStr ''2.0''), (''method'', JStr ''tools/call''),
              (''params'', JObj [(''name'', JStr ''search''), (''arguments'', JObj [])]),
              (''id'', JNum 1)]) \<rparr>])
   \<and> audit_records
         (snd (mcp_handler demo_world ''http://mcp.test/rpc'' (JStr ''search'') None (JObj []) []))
       = []
   \<and> length (audit_records
         (snd (mcp_handler demo_world ''http://mcp.test/rpc'' (JStr ''search'') None (JObj []) [])))
       \<noteq> 1
   \<and> audit_records (snd (createToolFromSkill demo_world demo_skill ''hi'' []))
       = [\<lparr> log_skillName = ''echo'', log_skillType = Code, log_input = ''hi'',
            log_output = Some ''Code skill \"echo\" executed with query: hi'',
            log_success = True, log_errorMessage = None,
            log_securityCheckResult = ''allowed'',
            log_durationMs = 2, log_timestamp = 1003 \<rparr>]"
  by (simp add: mcp_handler_def mcp_attempt_def Let_def demo_world_def demo_json_parse_def
        unwrap_response_def ok_response_def tools_call_request_def call_headers_def
        base_headers_def createToolFromSkill_def createCodeSkillTool_def logInvocation_def
        demo_truncate_def code_skill_result_def demo_skill_def)

text \<open>
  C1. The handler of an MCP-proxied tool executes (posts the call to the server) with no
  security check before it, and writes no audit record: evaluated in a world whose security
  checker is never asked.
\<close>

theorem mcp_call_runs_without_security_check:
  "snd (mcp_handler demo_world ''http://mcp.test/rpc'' (JStr ''search'') None (JObj []) [])
     = [EvFetch (tools_call_request ''http://mcp.test/rpc'' None (JStr ''search'') (JObj []))]
   \<and> list_ex is_execution
         (snd (mcp_handler demo_world ''http://mcp.test/rpc'' (JStr ''search'') None (JObj []) []))
   \<and> \<not> list_ex is_security_check
         (snd (mcp_handler demo_world ''http://mcp.test/rpc'' (JStr ''search'') None (JObj []) []))"
  by (simp add: mcp_handler_def mcp_attempt_def Let_def demo_world_def demo_json_parse_def
        unwrap_response_def ok_response_def)

section \<open>Lemmas about the loader\<close>

lemma say_simps [simp]:
  "ld_tools (say m ld) = ld_tools ld"
  "ld_trace (say m ld) = ld_trace ld"
  "ld_console (say m ld) = ld_console ld @ [m]"
  by (simp_all add: say_def)

lemma register_mcp_tools_trace:
  "ld_trace (snd (register_mcp_tools reg server url items ld)) = ld_trace ld"
proof (induction items arbitrary: ld)
  case Nil
  then show ?case by simp
next
  case (Cons t items)
  show ?case
  proof (cases "get_prop t ''name''")
    case (Inl x)
    then show ?thesis by simp
  next
    case (Inr n)
    then show ?thesis using Cons.IH by (cases n) (simp_all add: Let_def)
  qed
qed





lemma load_skills_None:
  "load_skills None skills tools
     = fold (\<lambda>s. AList.update (safeName (skill_name s)) (SkillTool s)) skills tools"
  by (induction skills arbitrary: tools) auto

lemma load_skills_keep:
  "map_of tools k \<noteq> None \<Longrightarrow> map_of (load_skills al skills tools) k \<noteq> None"
  by (induction skills arbitrary: tools) (auto simp: update_conv' split: option.splits)

lemma load_skills_key:
  "s \<in> set skills \<Longrightarrow> (case al of Some ids \<Rightarrow> skill_id s \<in> set ids | None \<Rightarrow> True) \<Longrightarrow>
     map_of (load_skills al skills tools) (safeName (skill_name s)) \<noteq> None"
proof (induction skills arbitrary: tools)
  case Nil
  then show ?case by simp
next
  case (Cons a skills)
  show ?case
  proof (cases "a = s")
    case True
    have "map_of (AList.update (safeName (skill_name s)) (SkillTool s) tools) (safeName (skill_name s)) \<noteq> None"
      by (simp add: update_conv')
    from load_skills_keep[OF this, of al skills] True Cons.prems(2)
    show ?thesis by (auto split: option.splits)
  next
    case False
    then have "s \<in> set skills" using Cons.prems by simp
    from Cons.IH[OF this Cons.prems(2)] show ?thesis by (auto split: option.splits)
  qed
qed












lemma mcp_inv_console:
  assumes "mcp_inv T ld" "\<forall>n k. LogRegistering n k \<notin> set ms"
  shows "mcp_inv T (ld \<lparr> ld_console := ld_console ld @ ms \<rparr>)"
  using assms unfolding mcp_inv_def by auto

lemma mcp_inv_say:
  assumes "mcp_inv T ld" "\<forall>n k. m \<noteq> LogRegistering n k"
  shows "mcp_inv T (say m ld)"
  using assms unfolding mcp_inv_def by (auto simp: say_def)

lemma mcp_inv_trace: "mcp_inv T (ld \<lparr> ld_trace := tr \<rparr>) = mcp_inv T ld"
  by (simp add: mcp_inv_def)

lemma tool_key_messages_plain: "LogRegistering n k \<notin> set (tool_key_messages reg server)"
  by (auto simp: tool_key_messages_def split: option.splits)

lemma discovery_key_messages_plain: "LogRegistering n k \<notin> set (discovery_key_messages reg server)"
  by (auto simp: discovery_key_messages_def split: option.splits)

lemma mcp_inv_step:
  assumes "mcp_inv T ld"
    and "ld_tools ld' = AList.update safe (McpTool url t nm key) (ld_tools ld)"
    and "set (ld_console ld) \<subseteq> set (ld_console ld')"
    and "\<forall>n k. LogRegistering n k \<in> set (ld_console ld') \<longrightarrow>
           k = safe \<or> LogRegistering n k \<in> set (ld_console ld)"
    and "has_entry (ld_tools ld) safe \<longrightarrow> LogConflict safe \<in> set (ld_console ld')"
  shows "mcp_inv T ld'"
  unfolding mcp_inv_def
proof (intro conjI allI impI)
  fix k assume "map_of T k \<noteq> None"
  then show "map_of (ld_tools ld') k \<noteq> None"
    using assms(1,2) by (auto simp: mcp_inv_def update_conv')
next
  fix k n assume r: "LogRegistering n k \<in> set (ld_console ld')"
  show "\<exists>u t m a. map_of (ld_tools ld') k = Some (McpTool u t m a)"
  proof (cases "k = safe")
    case True
    then show ?thesis using assms(2) by (simp add: update_conv')
  next
    case False
    then have "LogRegistering n k \<in> set (ld_console ld)" using r assms(4) by blast
    then show ?thesis using assms(1,2) False by (auto simp: mcp_inv_def update_conv')
  qed
next
  fix k n assume r: "LogRegistering n k \<in> set (ld_console ld')" and t: "map_of T k \<noteq> None"
  show "LogConflict k \<in> set (ld_console ld')"
  proof (cases "k = safe")
    case True
    have "map_of (ld_tools ld) k \<noteq> None" using assms(1) t by (auto simp: mcp_inv_def)
    then show ?thesis using assms(5) True by (simp add: has_entry_def)
  next
    case False
    then have "LogRegistering n k \<in> set (ld_console ld)" using r assms(4) by blast
    then have "LogConflict k \<in> set (ld_console ld)" using assms(1) t by (auto simp: mcp_inv_def)
    then show ?thesis using assms(3) by blast
  qed
qed

lemma register_mcp_tools_inv:
  "mcp_inv T ld \<Longrightarrow> mcp_inv T (snd (register_mcp_tools reg server url items ld))"
proof (induction items arbitrary: ld)
  case Nil
  then show ?case by simp
next
  case (Cons t items)
  show ?case
  proof (cases "get_prop t ''name''")
    case (Inl x)
    then show ?thesis using Cons.prems by simp
  next
    case (Inr n)
    show ?thesis
    proof (cases n)
      case (JStr toolName)
      define safe where "safe = safeName toolName"
      define ld1 where "ld1 = say (LogRegistering (JStr toolName) safe) ld"
      define ld2 where "ld2 = (if has_entry (ld_tools ld1) safe then say (LogConflict safe) ld1 else ld1)"
      define ld3 where "ld3 = ld2 \<lparr> ld_console := ld_console ld2 @ tool_key_messages reg server \<rparr>"
      define ld4 where "ld4 = ld3 \<lparr> ld_tools := AList.update safe
                         (McpTool url t (srv_name server) (tool_api_key reg server)) (ld_tools ld3) \<rparr>"
      have step: "register_mcp_tools reg server url (t # items) ld
                   = register_mcp_tools reg server url items ld4"
        using Inr JStr by (simp add: Let_def ld4_def ld3_def ld2_def ld1_def safe_def)
      have "mcp_inv T ld4"
      proof (rule mcp_inv_step[OF Cons.prems, where safe = safe])
        show "ld_tools ld4 = AList.update safe
                (McpTool url t (srv_name server) (tool_api_key reg server)) (ld_tools ld)"
          by (simp add: ld4_def ld3_def ld2_def ld1_def)
        show "set (ld_console ld) \<subseteq> set (ld_console ld4)"
          by (auto simp: ld4_def ld3_def ld2_def ld1_def)
        show "\<forall>n k. LogRegistering n k \<in> set (ld_console ld4) \<longrightarrow>
                k = safe \<or> LogRegistering n k \<in> set (ld_console ld)"
          using tool_key_messages_plain[of _ _ reg server]
          by (auto simp: ld4_def ld3_def ld2_def ld1_def split: if_splits)
        show "has_entry (ld_tools ld) safe \<longrightarrow> LogConflict safe \<in> set (ld_console ld4)"
          by (auto simp: ld4_def ld3_def ld2_def ld1_def)
      qed
      from Cons.IH[OF this] show ?thesis using step by simp
    qed (use Cons.prems Inr in simp_all)
  qed
qed

text \<open>A property kept by console output, by the trace and by registrations is kept by a run.\<close>

lemma discover_server_rule:
  assumes P: "P ld"
    and console: "\<And>ld ms. P ld \<Longrightarrow> \<forall>n k. LogRegistering n k \<notin> set ms
                    \<Longrightarrow> P (ld \<lparr> ld_console := ld_console ld @ ms \<rparr>)"
    and trace: "\<And>ld tr. P ld \<Longrightarrow> P (ld \<lparr> ld_trace := tr \<rparr>)"
    and register: "\<And>ld items. P ld \<Longrightarrow> P (snd (register_mcp_tools reg server url items ld))"
  shows "P (snd (discover_server e reg server url ld))"
proof -
  have say: "P (say m l)" if "P l" "\<forall>n k. m \<noteq> LogRegistering n k" for m l
  proof -
    have "\<forall>n k. LogRegistering n k \<notin> set [m]" using that(2) by auto
    from console[OF that(1) this] show ?thesis by (simp add: say_def)
  qed
  let ?ld1 = "ld \<lparr> ld_console := ld_console ld
                   @ [LogFetching (srv_name server) url] @ discovery_key_messages reg server \<rparr>"
  have 1: "P ?ld1"
    using console[OF P, of "[LogFetching (srv_name server) url] @ discovery_key_messages reg server"]
      discovery_key_messages_plain[of _ _ reg server] by auto
  obtain r tr where f: "fetch_tools_list e url (discovery_headers reg server) (ld_trace ?ld1) = (r, tr)"
    by (cases "fetch_tools_list e url (discovery_headers reg server) (ld_trace ?ld1)")
  let ?ld2 = "?ld1 \<lparr> ld_trace := tr \<rparr>"
  have 2: "P ?ld2" using 1 by (rule trace)
  show ?thesis
  proof (cases r)
    case (Inl x)
    then show ?thesis using f 2 by (simp add: discover_server_def Let_def)
  next
    case (Inr rt)
    obtain response responseText where rt: "rt = (response, responseText)" by (cases rt)
    show ?thesis
    proof (cases "resp_ok response")
      case False
      have "P (?ld2 \<lparr> ld_console := ld_console ?ld2
                      @ [ErrStatus (srv_name server) (resp_status response),
                         ErrResponseBody (take 500 responseText)] \<rparr>)"
        using console[OF 2, of "[ErrStatus (srv_name server) (resp_status response),
                         ErrResponseBody (take 500 responseText)]"] by simp
      then show ?thesis using f Inr rt False by (simp add: discover_server_def Let_def)
    next
      case True
      show ?thesis
      proof (cases "parse_tools_response e responseText")
        case None
        have "P (say (ErrNonJson (srv_name server) (take 200 responseText)) ?ld2)"
          using say[OF 2] by simp
        then show ?thesis using f Inr rt True None by (simp add: discover_server_def Let_def)
      next
        case (Some data)
        let ?ld3 = "say (LogResponse (srv_name server) data) ?ld2"
        have 3: "P ?ld3" using say[OF 2] by simp
        show ?thesis
        proof (cases "mcp_tools_of data")
          case (Inl x)
          then show ?thesis using f Inr rt True Some 3 by (simp add: discover_server_def Let_def)
        next
          case tools: (Inr mcpTools)
          let ?ld4 = "say (LogToolCount (srv_name server) mcpTools) ?ld3"
          have 4: "P ?ld4" using say[OF 3] by simp
          show ?thesis
          proof (cases "iterate mcpTools")
            case (Inl x)
            then show ?thesis using f Inr rt True Some tools 4
              by (simp add: discover_server_def Let_def)
          next
            case items: (Inr items)
            from register[OF 4, of items]
            show ?thesis using f Inr rt True Some tools items
              by (simp add: discover_server_def Let_def)
          qed
        qed
      qed
    qed
  qed
qed

lemma load_server_rule:
  assumes P: "P ld"
    and console: "\<And>ld ms. P ld \<Longrightarrow> \<forall>n k. LogRegistering n k \<notin> set ms
                    \<Longrightarrow> P (ld \<lparr> ld_console := ld_console ld @ ms \<rparr>)"
    and trace: "\<And>ld tr. P ld \<Longrightarrow> P (ld \<lparr> ld_trace := tr \<rparr>)"
    and register: "\<And>ld items. P ld
                    \<Longrightarrow> P (snd (register_mcp_tools reg server (the (srv_url server)) items ld))"
  shows "P (load_server e reg allowed server ld)"
proof -
  have say: "P (say m l)" if "P l" "\<forall>n k. m \<noteq> LogRegistering n k" for m l
  proof -
    have "\<forall>n k. LogRegistering n k \<notin> set [m]" using that(2) by auto
    from console[OF that(1) this] show ?thesis by (simp add: say_def)
  qed
  obtain r ld1 where d: "discover_server e reg server (the (srv_url server)) ld = (r, ld1)"
    by (cases "discover_server e reg server (the (srv_url server)) ld")
  have 1: "P ld1"
    using discover_server_rule[of P ld reg server "the (srv_url server)" e, OF P console trace register] d
    by simp
  show ?thesis
    using P d 1 say[OF 1] say[OF P]
    by (auto simp: load_server_def split: option.splits)
qed

lemma load_servers_rule:
  assumes P: "P ld"
    and console: "\<And>ld ms. P ld \<Longrightarrow> \<forall>n k. LogRegistering n k \<notin> set ms
                    \<Longrightarrow> P (ld \<lparr> ld_console := ld_console ld @ ms \<rparr>)"
    and trace: "\<And>ld tr. P ld \<Longrightarrow> P (ld \<lparr> ld_trace := tr \<rparr>)"
    and register: "\<And>ld items server url. P ld
                    \<Longrightarrow> P (snd (register_mcp_tools reg server url items ld))"
  shows "P (load_servers e reg allowed servers ld)"
  using P
proof (induction servers arbitrary: ld)
  case Nil
  then show ?case by simp
next
  case (Cons server servers)
  have "P (load_server e reg allowed server ld)"
    by (rule load_server_rule[of P, OF Cons.prems console trace register])
  from Cons.IH[OF this] show ?case by simp
qed

lemma load_mcp_rule:
  assumes P: "P ld"
    and console: "\<And>ld ms. P ld \<Longrightarrow> \<forall>n k. LogRegistering n k \<notin> set ms
                    \<Longrightarrow> P (ld \<lparr> ld_console := ld_console ld @ ms \<rparr>)"
    and trace: "\<And>ld tr. P ld \<Longrightarrow> P (ld \<lparr> ld_trace := tr \<rparr>)"
    and register: "\<And>ld items server url. P ld
                    \<Longrightarrow> P (snd (register_mcp_tools reg server url items ld))"
  shows "P (load_mcp e reg allowed ld)"
proof -
  have say: "P (say m l)" if "P l" "\<forall>n k. m \<noteq> LogRegistering n k" for m l
  proof -
    have "\<forall>n k. LogRegistering n k \<notin> set [m]" using that(2) by auto
    from console[OF that(1) this] show ?thesis by (simp add: say_def)
  qed
  show ?thesis
  proof (cases "getEnabledApproved reg")
    case (Inl x)
    then show ?thesis using say[OF P] by (simp add: load_mcp_def)
  next
    case (Inr servers)
    have "P (say (LogFoundServers (length servers)) ld)" using say[OF P] by simp
    from load_servers_rule[of P, OF this console trace register]
    show ?thesis using Inr by (simp add: load_mcp_def)
  qed
qed

lemma load_mcp_inv:
  assumes "mcp_inv T ld"
  shows "mcp_inv T (load_mcp e reg allowed ld)"
  by (rule load_mcp_rule[of "mcp_inv T", OF assms])
     (simp_all add: mcp_inv_console mcp_inv_trace register_mcp_tools_inv)










lemma add_agent_tools_other:
  assumes "truthy_str agentId \<longrightarrow> k \<notin> peer_key ` set (peer_agents reg (the agentId))"
  shows "map_of (add_agent_tools reg agentId tools) k = map_of tools k"
proof -
  have "k \<notin> peer_key ` set ps \<Longrightarrow>
        map_of (fold (\<lambda>peer. AList.update (peer_key peer) (AgentTool a (agent_id peer) (agent_name peer))) ps T) k
          = map_of T k" for ps a T
    by (induction ps arbitrary: T) (auto simp: update_conv')
  then show ?thesis using assms by (auto simp: add_agent_tools_def)
qed



lemma assign_Nil [simp]: "assign [] tools = tools"
  by (simp add: assign_def)

lemma assign_Cons [simp]: "assign (kv # regs) tools = assign regs (AList.update (fst kv) (snd kv) tools)"
  by (simp add: assign_def)

lemma assign_append: "assign (xs @ ys) tools = assign ys (assign xs tools)"
  by (simp add: assign_def)

lemma map_of_assign:
  "map_of (assign regs tools) k = (case map_of (rev regs) k of Some v \<Rightarrow> Some v | None \<Rightarrow> map_of tools k)"
proof (induction regs arbitrary: tools)
  case Nil
  then show ?case by simp
next
  case (Cons kv regs)
  show ?case
    by (cases kv) (auto simp: Cons.IH update_conv' map_add_def split: option.splits)
qed

lemma named_get_prop:
  "named item \<Longrightarrow> get_prop item ''name'' = Inr (JStr (name_of item))"
  by (cases item) (auto simp: named_def name_of_def member_def split: option.splits jsval.splits)

lemma not_named_get_prop:
  "\<not> named item \<Longrightarrow> get_prop item ''name'' = Inr (JStr n) \<Longrightarrow> False"
  by (cases item) (auto simp: named_def member_def split: option.splits jsval.splits)

lemma register_mcp_tools_assign:
  "ld_tools (snd (register_mcp_tools reg server url items ld))
     = assign (map (mcp_registration reg server url) (takeWhile named items)) (ld_tools ld)"
proof (induction items arbitrary: ld)
  case Nil
  then show ?case by simp
next
  case (Cons t items)
  show ?case
  proof (cases "named t")
    case True
    then show ?thesis
      using named_get_prop[OF True] Cons.IH by (simp add: Let_def mcp_registration_def)
  next
    case False
    show ?thesis
    proof (cases "get_prop t ''name''")
      case (Inl x)
      then show ?thesis using False by simp
    next
      case (Inr n)
      then show ?thesis using False not_named_get_prop[OF False] by (cases n) auto
    qed
  qed
qed

lemma register_mcp_tools_console:
  "set (ld_console ld) \<subseteq> set (ld_console (snd (register_mcp_tools reg server url items ld)))
   \<and> (\<forall>item\<in>set (takeWhile named items).
         LogRegistering (JStr (name_of item)) (safeName (name_of item))
           \<in> set (ld_console (snd (register_mcp_tools reg server url items ld))))"
proof (induction items arbitrary: ld)
  case Nil
  then show ?case by simp
next
  case (Cons t items)
  show ?case
  proof (cases "named t")
    case True
    define ld4 where "ld4 =
      (let safe = safeName (name_of t);
           ld1 = say (LogRegistering (JStr (name_of t)) safe) ld;
           ld2 = (if has_entry (ld_tools ld1) safe then say (LogConflict safe) ld1 else ld1);
           ld3 = ld2 \<lparr> ld_console := ld_console ld2 @ tool_key_messages reg server \<rparr>
       in ld3 \<lparr> ld_tools :=
                       AList.update safe
                         (McpTool url t (srv_name server) (tool_api_key reg server))
                         (ld_tools ld3) \<rparr>)"
    have step: "register_mcp_tools reg server url (t # items) ld
                  = register_mcp_tools reg server url items ld4"
      using named_get_prop[OF True] by (simp add: Let_def ld4_def)
    have c: "set (ld_console ld) \<subseteq> set (ld_console ld4)"
      "LogRegistering (JStr (name_of t)) (safeName (name_of t)) \<in> set (ld_console ld4)"
      by (auto simp: ld4_def Let_def)
    show ?thesis
      unfolding step using Cons.IH[of ld4] c True by auto
  next
    case False
    have "ld_console (snd (register_mcp_tools reg server url (t # items) ld)) = ld_console ld"
    proof (cases "get_prop t ''name''")
      case (Inl x)
      then show ?thesis by simp
    next
      case (Inr n)
      then show ?thesis using not_named_get_prop[OF False] by (cases n) auto
    qed
    then show ?thesis using False by simp
  qed
qed


lemma read_response_Inr: "read_response r = Inr a \<longleftrightarrow> readable r = Some a"
  by (auto simp: read_response_def readable_def split: sum.splits)

lemma read_response_Inl: "read_response r = Inl x \<Longrightarrow> readable r = None"
  by (auto simp: read_response_def readable_def split: sum.splits)

lemma discovery_requests:
  "tools_list_post url (discovery_headers reg server) = discovery_post reg server url"
  "tools_list_get url (discovery_headers reg server) = discovery_get reg server url"
  by (simp_all add: tools_list_post_def tools_list_get_def discovery_post_def discovery_get_def)

lemma fetch_tools_list_spec:
  "snd (fetch_tools_list e url (discovery_headers reg server) tr) = tr @ asked e reg server url tr
   \<and> (case fst (fetch_tools_list e url (discovery_headers reg server) tr) of
         Inr a \<Rightarrow> discovery_answer e tr (discovery_post reg server url) (discovery_get reg server url) = Some a
       | Inl x \<Rightarrow> discovery_answer e tr (discovery_post reg server url) (discovery_get reg server url) = None)"
proof (cases "read_response (fetch e tr (discovery_post reg server url))")
  case (Inr a)
  then show ?thesis
    using read_response_Inr[of "fetch e tr (discovery_post reg server url)" a]
    by (simp add: fetch_tools_list_def Let_def discovery_requests asked_def
          discovery_events_def discovery_answer_def)
next
  case (Inl x)
  note p = read_response_Inl[OF Inl]
  show ?thesis
  proof (cases "read_response (fetch e (tr @ [EvFetch (discovery_post reg server url)])
                   (discovery_get reg server url))")
    case (Inr a)
    then show ?thesis
      using Inl p read_response_Inr[of "fetch e (tr @ [EvFetch (discovery_post reg server url)])
                   (discovery_get reg server url)" a]
      by (simp add: fetch_tools_list_def Let_def discovery_requests asked_def
            discovery_events_def discovery_answer_def)
  next
    case g: (Inl y)
    then show ?thesis
      using Inl p read_response_Inl[OF g]
      by (simp add: fetch_tools_list_def Let_def discovery_requests asked_def
            discovery_events_def discovery_answer_def)
  qed
qed

lemma mcp_tools_of_listed:
  "d \<noteq> JNull \<Longrightarrow> d \<noteq> JUndefined \<Longrightarrow> mcp_tools_of d = Inr (listed d)"
proof (cases d)
  case (JObj kvs)
  show ?thesis
  proof (cases "map_of kvs ''result''")
    case None
    then show ?thesis using JObj
      by (simp add: mcp_tools_of_def listed_def member_def Let_def split: option.splits)
  next
    case (Some r)
    then show ?thesis using JObj
      by (cases r)
         (simp_all add: mcp_tools_of_def listed_def member_def Let_def split: option.splits)
  qed
qed (simp_all add: mcp_tools_of_def listed_def member_def Let_def)

lemma mcp_tools_of_null:
  "d = JNull \<or> d = JUndefined \<Longrightarrow> \<exists>x. mcp_tools_of d = Inl x"
  by (auto simp: mcp_tools_of_def)

lemma takeWhile_named_chars: "takeWhile named (map (\<lambda>c. JStr [c]) s) = []"
  by (cases s) (simp_all add: named_def member_def)

text \<open>What registering the tools an iterable lists comes to.\<close>

lemma iterate_listed:
  "(case iterate v of
      Inl x \<Rightarrow> takeWhile named (case v of JArr items \<Rightarrow> items | _ \<Rightarrow> []) = []
    | Inr items \<Rightarrow> takeWhile named items = takeWhile named (case v of JArr items \<Rightarrow> items | _ \<Rightarrow> []))"
  by (cases v) (simp_all add: iterate_def takeWhile_named_chars)

lemma discover_server_spec:
  "ld_tools (snd (discover_server e reg server url ld))
     = assign (map (mcp_registration reg server url) (served e reg server url (ld_trace ld)))
         (ld_tools ld)
   \<and> ld_trace (snd (discover_server e reg server url ld))
       = ld_trace ld @ asked e reg server url (ld_trace ld)
   \<and> set (ld_console ld) \<subseteq> set (ld_console (snd (discover_server e reg server url ld)))
   \<and> (\<forall>item\<in>set (served e reg server url (ld_trace ld)).
         LogRegistering (JStr (name_of item)) (safeName (name_of item))
           \<in> set (ld_console (snd (discover_server e reg server url ld))))"
proof -
  let ?post = "discovery_post reg server url"
  let ?get = "discovery_get reg server url"
  let ?ld1 = "ld \<lparr> ld_console := ld_console ld
                   @ [LogFetching (srv_name server) url] @ discovery_key_messages reg server \<rparr>"
  obtain r tr where f: "fetch_tools_list e url (discovery_headers reg server) (ld_trace ld) = (r, tr)"
    by (cases "fetch_tools_list e url (discovery_headers reg server) (ld_trace ld)")
  have f1: "fetch_tools_list e url (discovery_headers reg server) (ld_trace ?ld1) = (r, tr)"
    using f by simp
  note fs = fetch_tools_list_spec[of e url reg server "ld_trace ld", unfolded f, simplified]
  have tr: "tr = ld_trace ld @ asked e reg server url (ld_trace ld)" using fs by simp
  let ?ld2 = "?ld1 \<lparr> ld_trace := tr \<rparr>"
  show ?thesis
  proof (cases r)
    case (Inl x)
    then have "discovery_answer e (ld_trace ld) ?post ?get = None" using fs by simp
    then have s: "served e reg server url (ld_trace ld) = []"
      by (simp add: served_def discovered_def)
    have d: "snd (discover_server e reg server url ld) = ?ld2"
      using f1 Inl by (simp add: discover_server_def Let_def)
    show ?thesis unfolding d s using tr by auto
  next
    case (Inr rt)
    obtain response responseText where rt: "rt = (response, responseText)" by (cases rt)
    have a: "discovery_answer e (ld_trace ld) ?post ?get = Some (response, responseText)"
      using fs Inr rt by simp
    show ?thesis
    proof (cases "resp_ok response")
      case False
      have s: "served e reg server url (ld_trace ld) = []"
        using a False by (simp add: served_def discovered_def)
      have d: "snd (discover_server e reg server url ld)
                 = ?ld2 \<lparr> ld_console := ld_console ?ld2
                      @ [ErrStatus (srv_name server) (resp_status response),
                         ErrResponseBody (take 500 responseText)] \<rparr>"
        using f1 Inr rt False by (simp add: discover_server_def Let_def)
      show ?thesis unfolding d s using tr by auto
    next
      case True
      show ?thesis
      proof (cases "parse_tools_response e responseText")
        case None
        then have "document e responseText = None"
          by (auto simp: parse_tools_response_def document_def split: sum.splits option.splits)
        then have s: "served e reg server url (ld_trace ld) = []"
          using a True by (simp add: served_def discovered_def)
        have d: "snd (discover_server e reg server url ld)
                 = say (ErrNonJson (srv_name server) (take 200 responseText)) ?ld2"
          using f1 Inr rt True None by (simp add: discover_server_def Let_def)
        show ?thesis unfolding d s using tr by auto
      next
        case (Some data)
        let ?ld3 = "say (LogResponse (srv_name server) data) ?ld2"
        have doc: "document e responseText = Some data
                   \<or> (document e responseText = None \<and> data = JObj [(''tools'', JArr [])])"
          using Some
          by (auto simp: parse_tools_response_def document_def split: sum.splits option.splits)
        show ?thesis
        proof (cases "mcp_tools_of data")
          case (Inl x)
          have nul: "data = JNull \<or> data = JUndefined"
            using Inl mcp_tools_of_listed[of data] by auto
          have s: "served e reg server url (ld_trace ld) = []"
            using a True doc nul by (auto simp: served_def discovered_def)
          have d: "snd (discover_server e reg server url ld) = ?ld3"
            using f1 Inr rt True Some Inl by (simp add: discover_server_def Let_def)
          show ?thesis unfolding d s using tr by auto
        next
          case tools: (Inr mcpTools)
          have nn: "data \<noteq> JNull" "data \<noteq> JUndefined"
            using tools mcp_tools_of_null[of data] by auto
          have l: "mcpTools = listed data" using tools mcp_tools_of_listed[OF nn] by simp
          have s: "served e reg server url (ld_trace ld)
                     = takeWhile named (case listed data of JArr items \<Rightarrow> items | _ \<Rightarrow> [])"
            using a True doc nn
            by (auto simp: served_def discovered_def listed_def member_def)
          let ?ld4 = "say (LogToolCount (srv_name server) mcpTools) ?ld3"
          show ?thesis
          proof (cases "iterate mcpTools")
            case (Inl x)
            have s0: "served e reg server url (ld_trace ld) = []"
              using s iterate_listed[of mcpTools] Inl l by simp
            have d: "snd (discover_server e reg server url ld) = ?ld4"
              using f1 Inr rt True Some tools Inl by (simp add: discover_server_def Let_def)
            show ?thesis unfolding d s0 using tr by auto
          next
            case items: (Inr items)
            have s1: "served e reg server url (ld_trace ld) = takeWhile named items"
              using s iterate_listed[of mcpTools] items l by simp
            have d: "snd (discover_server e reg server url ld)
                       = snd (register_mcp_tools reg server url items ?ld4)"
              using f1 Inr rt True Some tools items by (simp add: discover_server_def Let_def)
            show ?thesis
              unfolding d s1
              using register_mcp_tools_assign[of reg server url items ?ld4]
                register_mcp_tools_trace[of reg server url items ?ld4]
                register_mcp_tools_console[of ?ld4 reg server url items] tr
              by auto
          qed
        qed
      qed
    qed
  qed
qed


lemma load_server_in:
  assumes "srv_url server = Some url" "url \<noteq> []"
    and "case allowed of None \<Rightarrow> True | Some ids \<Rightarrow> srv_id server \<in> set ids"
  shows "ld_tools (load_server e reg allowed server ld)
           = assign (map (mcp_registration reg server url) (served e reg server url (ld_trace ld)))
               (ld_tools ld)"
    and "ld_trace (load_server e reg allowed server ld)
           = ld_trace ld @ asked e reg server url (ld_trace ld)"
    and "set (ld_console ld) \<subseteq> set (ld_console (load_server e reg allowed server ld))"
    and "\<forall>item\<in>set (served e reg server url (ld_trace ld)).
           LogRegistering (JStr (name_of item)) (safeName (name_of item))
             \<in> set (ld_console (load_server e reg allowed server ld))"
proof -
  obtain r ld1 where d: "discover_server e reg server url ld = (r, ld1)"
    by (cases "discover_server e reg server url ld")
  have l: "load_server e reg allowed server ld
             = (case r of None \<Rightarrow> ld1 | Some x \<Rightarrow> say (ErrFailedTools (srv_name server) x) ld1)"
    using assms d by (auto simp: load_server_def split: option.splits)
  note sp = discover_server_spec[of e reg server url ld, unfolded d, simplified]
  show "ld_tools (load_server e reg allowed server ld)
           = assign (map (mcp_registration reg server url) (served e reg server url (ld_trace ld)))
               (ld_tools ld)"
    unfolding l using sp by (cases r) simp_all
  show "ld_trace (load_server e reg allowed server ld)
           = ld_trace ld @ asked e reg server url (ld_trace ld)"
    unfolding l using sp by (cases r) simp_all
  show "set (ld_console ld) \<subseteq> set (ld_console (load_server e reg allowed server ld))"
    unfolding l using sp by (cases r) auto
  show "\<forall>item\<in>set (served e reg server url (ld_trace ld)).
           LogRegistering (JStr (name_of item)) (safeName (name_of item))
             \<in> set (ld_console (load_server e reg allowed server ld))"
    unfolding l using sp by (cases r) auto
qed

lemma load_server_out:
  assumes "srv_url server = None \<or> srv_url server = Some []
           \<or> (\<exists>ids. allowed = Some ids \<and> srv_id server \<notin> set ids)"
  shows "ld_tools (load_server e reg allowed server ld) = ld_tools ld"
    and "ld_trace (load_server e reg allowed server ld) = ld_trace ld"
    and "set (ld_console ld) \<subseteq> set (ld_console (load_server e reg allowed server ld))"
  using assms by (auto simp: load_server_def split: option.splits)

lemma load_servers_spec:
  "ld_tools (load_servers e reg allowed servers ld)
     = assign (mcp_registrations e reg allowed servers (ld_trace ld)) (ld_tools ld)
   \<and> set (ld_console ld) \<subseteq> set (ld_console (load_servers e reg allowed servers ld))
   \<and> (\<forall>kv\<in>set (mcp_registrations e reg allowed servers (ld_trace ld)).
         \<exists>n. LogRegistering n (fst kv) \<in> set (ld_console (load_servers e reg allowed servers ld)))"
proof (induction servers arbitrary: ld)
  case Nil
  then show ?case by simp
next
  case (Cons server servers)
  let ?ld1 = "load_server e reg allowed server ld"
  note ih = Cons.IH[of ?ld1]
  show ?case
  proof (cases "\<exists>url. srv_url server = Some url \<and> url \<noteq> []
                  \<and> (case allowed of None \<Rightarrow> True | Some ids \<Rightarrow> srv_id server \<in> set ids)")
    case True
    then obtain url where u: "srv_url server = Some url" "url \<noteq> []"
      "case allowed of None \<Rightarrow> True | Some ids \<Rightarrow> srv_id server \<in> set ids" by blast
    note li = load_server_in[OF u, where e = e and reg = reg and ld = ld]
    have regs: "mcp_registrations e reg allowed (server # servers) (ld_trace ld)
                  = map (mcp_registration reg server url) (served e reg server url (ld_trace ld))
                    @ mcp_registrations e reg allowed servers (ld_trace ?ld1)"
      using u li(2) by simp
    have t: "ld_tools (load_servers e reg allowed (server # servers) ld)
               = assign (mcp_registrations e reg allowed (server # servers) (ld_trace ld)) (ld_tools ld)"
      unfolding regs using ih li(1) by (simp add: assign_append)
    have c: "set (ld_console ld) \<subseteq> set (ld_console (load_servers e reg allowed (server # servers) ld))"
      using ih li(3) by auto
    have r: "\<exists>n. LogRegistering n (fst kv)
                  \<in> set (ld_console (load_servers e reg allowed (server # servers) ld))"
      if "kv \<in> set (mcp_registrations e reg allowed (server # servers) (ld_trace ld))" for kv
    proof -
      from that[unfolded regs]
      consider (a) "kv \<in> set (map (mcp_registration reg server url) (served e reg server url (ld_trace ld)))"
        | (b) "kv \<in> set (mcp_registrations e reg allowed servers (ld_trace ?ld1))" by auto
      then show ?thesis
      proof cases
        case a
        then obtain item where i: "item \<in> set (served e reg server url (ld_trace ld))"
          "kv = mcp_registration reg server url item" by auto
        from li(4) i(1) have "LogRegistering (JStr (name_of item)) (safeName (name_of item))
             \<in> set (ld_console ?ld1)" by blast
        then have "LogRegistering (JStr (name_of item)) (fst kv)
             \<in> set (ld_console (load_servers e reg allowed servers ?ld1))"
          using ih i(2) by (auto simp: mcp_registration_def)
        then show ?thesis by auto
      next
        case b
        then show ?thesis using ih by auto
      qed
    qed
    from t c r show ?thesis by blast
  next
    case False
    then have out: "srv_url server = None \<or> srv_url server = Some []
           \<or> (\<exists>ids. allowed = Some ids \<and> srv_id server \<notin> set ids)"
      by (cases "srv_url server"; cases allowed) auto
    note lo = load_server_out[OF out, where e = e and reg = reg and ld = ld]
    have regs: "mcp_registrations e reg allowed (server # servers) (ld_trace ld)
                  = mcp_registrations e reg allowed servers (ld_trace ?ld1)"
      using out lo(2) by (auto split: option.splits)
    show ?thesis
      unfolding regs using ih lo by auto
  qed
qed

lemma load_skills_assign:
  "load_skills al skills tools = assign (skill_registrations al skills) tools"
  by (induction skills arbitrary: tools)
     (auto simp: skill_registrations_def split: option.splits)

lemma add_builtins_assign: "add_builtins tools = assign builtin_registrations tools"
  by (simp add: add_builtins_def assign_def builtin_registrations_def fold_map comp_def)

lemma add_agent_tools_assign:
  "add_agent_tools reg agentId tools = assign (agent_registrations reg agentId) tools"
  by (cases agentId)
     (simp_all add: add_agent_tools_def assign_def agent_registrations_def fold_map comp_def)

text \<open>The servers a run goes through.\<close>

lemma load_mcp_spec:
  "ld_tools (load_mcp e reg allowed ld)
     = assign (mcp_registrations e reg allowed
                 (case getEnabledApproved reg of Inr ss \<Rightarrow> ss | Inl x \<Rightarrow> []) (ld_trace ld))
         (ld_tools ld)
   \<and> (\<forall>kv\<in>set (mcp_registrations e reg allowed
                   (case getEnabledApproved reg of Inr ss \<Rightarrow> ss | Inl x \<Rightarrow> []) (ld_trace ld)).
         \<exists>n. LogRegistering n (fst kv) \<in> set (ld_console (load_mcp e reg allowed ld)))"
proof (cases "getEnabledApproved reg")
  case (Inl x)
  then show ?thesis by (simp add: load_mcp_def)
next
  case (Inr ss)
  show ?thesis
    using load_servers_spec[of e reg allowed ss "say (LogFoundServers (length ss)) ld"] Inr
    by (simp add: load_mcp_def)
qed

lemma loadTools_assign:
  assumes "loadTools e reg agentId = Inr ld"
    and "allowed_ids reg agentId = Inr (allowedSkillIds, allowedMcpIds)"
    and "getActiveApproved reg = Inr skills"
  shows "ld_tools ld
           = assign (skill_registrations allowedSkillIds skills
                     @ mcp_registrations e reg allowedMcpIds
                         (case getEnabledApproved reg of Inr ss \<Rightarrow> ss | Inl x \<Rightarrow> []) []
                     @ builtin_registrations
                     @ agent_registrations reg agentId) []"
    and "\<forall>kv\<in>set (mcp_registrations e reg allowedMcpIds
                   (case getEnabledApproved reg of Inr ss \<Rightarrow> ss | Inl x \<Rightarrow> []) []).
           \<exists>n. LogRegistering n (fst kv) \<in> set (ld_console ld)"
proof -
  define ld1 where "ld1 = \<lparr> ld_tools = load_skills allowedSkillIds skills [], ld_console = [],
                            ld_trace = [] \<rparr>"
  have ld: "ld = (load_mcp e reg allowedMcpIds ld1)
                   \<lparr> ld_tools := add_agent_tools reg agentId
                        (add_builtins (ld_tools (load_mcp e reg allowedMcpIds ld1))) \<rparr>"
    using assms by (simp add: loadTools_def Let_def ld1_def)
  note sp = load_mcp_spec[of e reg allowedMcpIds ld1]
  have t1: "ld_trace ld1 = []" "ld_tools ld1 = assign (skill_registrations allowedSkillIds skills) []"
    by (simp_all add: ld1_def load_skills_assign)
  show "ld_tools ld
           = assign (skill_registrations allowedSkillIds skills
                     @ mcp_registrations e reg allowedMcpIds
                         (case getEnabledApproved reg of Inr ss \<Rightarrow> ss | Inl x \<Rightarrow> []) []
                     @ builtin_registrations
                     @ agent_registrations reg agentId) []"
    using sp t1 by (simp add: ld add_agent_tools_assign add_builtins_assign assign_append)
  show "\<forall>kv\<in>set (mcp_registrations e reg allowedMcpIds
                   (case getEnabledApproved reg of Inr ss \<Rightarrow> ss | Inl x \<Rightarrow> []) []).
           \<exists>n. LogRegistering n (fst kv) \<in> set (ld_console ld)"
    using sp t1 by (simp add: ld)
qed




lemma mcp_registrations_origin:
  "kv \<in> set (mcp_registrations e reg allowed servers tr) \<Longrightarrow>
     \<exists>server\<in>set servers. \<exists>url item.
        srv_url server = Some url \<and> url \<noteq> []
        \<and> (case allowed of None \<Rightarrow> True | Some ids \<Rightarrow> srv_id server \<in> set ids)
        \<and> named item \<and> kv = mcp_registration reg server url item"
proof (induction servers arbitrary: tr)
  case Nil
  then show ?case by simp
next
  case (Cons server servers)
  show ?case
  proof (cases "\<exists>url. srv_url server = Some url \<and> url \<noteq> []
                  \<and> (case allowed of None \<Rightarrow> True | Some ids \<Rightarrow> srv_id server \<in> set ids)")
    case True
    then obtain url where u: "srv_url server = Some url" "url \<noteq> []"
      "case allowed of None \<Rightarrow> True | Some ids \<Rightarrow> srv_id server \<in> set ids" by blast
    from Cons.prems u
    consider (a) "kv \<in> set (map (mcp_registration reg server url) (served e reg server url tr))"
      | (b) "kv \<in> set (mcp_registrations e reg allowed servers (tr @ asked e reg server url tr))"
      by auto
    then show ?thesis
    proof cases
      case a
      then obtain item where "item \<in> set (served e reg server url tr)"
        "kv = mcp_registration reg server url item" by auto
      moreover from this(1) have "named item"
        unfolding served_def by (auto dest: set_takeWhileD)
      ultimately show ?thesis using u by auto
    next
      case b
      from Cons.IH[OF b] show ?thesis by auto
    qed
  next
    case False
    then have out: "srv_url server = None \<or> srv_url server = Some []
           \<or> (\<exists>ids. allowed = Some ids \<and> srv_id server \<notin> set ids)"
      by (cases "srv_url server"; cases allowed) auto
    then have "mcp_registrations e reg allowed (server # servers) tr
                 = mcp_registrations e reg allowed servers tr"
      by (auto split: option.splits)
    then have "kv \<in> set (mcp_registrations e reg allowed servers tr)"
      using Cons.prems by simp
    from Cons.IH[OF this] show ?thesis by auto
  qed
qed

lemma map_of_rev_in: "k \<in> fst ` set regs \<Longrightarrow> map_of (rev regs) k \<noteq> None"
  by (simp add: map_of_eq_None_iff)

lemma map_of_assign_Nil: "map_of (assign regs []) k = map_of (rev regs) k"
  by (simp add: map_of_assign split: option.splits)



lemma loadTools_console:
  assumes "loadTools e reg agentId = Inr ld"
    and "allowed_ids reg agentId = Inr (allowedSkillIds, allowedMcpIds)"
    and "getActiveApproved reg = Inr skills"
  shows "ld_console ld
           = ld_console (load_mcp e reg allowedMcpIds
               \<lparr> ld_tools = load_skills allowedSkillIds skills [], ld_console = [], ld_trace = [] \<rparr>)"
proof -
  define ld1 where "ld1 = \<lparr> ld_tools = load_skills allowedSkillIds skills [], ld_console = [],
                            ld_trace = [] \<rparr>"
  have ld: "ld = (load_mcp e reg allowedMcpIds ld1)
                   \<lparr> ld_tools := add_agent_tools reg agentId
                        (add_builtins (ld_tools (load_mcp e reg allowedMcpIds ld1))) \<rparr>"
    using assms by (simp add: loadTools_def Let_def ld1_def)
  show ?thesis unfolding ld by (simp add: ld1_def)
qed







lemma map_of_builtin_registrations:
  "map_of (rev builtin_registrations) k = (if k \<in> set builtin_names then Some (BuiltinTool k) else None)"
proof -
  have "map_of (rev (map (\<lambda>n. (n, BuiltinTool n)) ns)) k
          = (if k \<in> set ns then Some (BuiltinTool k) else None)" for ns
    by (induction ns) (auto simp: map_add_def split: option.splits)
  then show ?thesis by (simp add: builtin_registrations_def)
qed

lemma map_of_agent_registrations:
  "k \<in> fst ` set (agent_registrations reg agentId) \<Longrightarrow>
     \<exists>a b c. map_of (rev (agent_registrations reg agentId)) k = Some (AgentTool a b c)"
proof -
  assume k: "k \<in> fst ` set (agent_registrations reg agentId)"
  then have "map_of (rev (agent_registrations reg agentId)) k \<noteq> None" by (rule map_of_rev_in)
  then obtain v where v: "map_of (rev (agent_registrations reg agentId)) k = Some v" by auto
  then have "(k, v) \<in> set (agent_registrations reg agentId)"
    using map_of_SomeD[OF v] by simp
  then have "\<exists>a b c. v = AgentTool a b c"
    by (cases agentId) (auto simp: agent_registrations_def split: if_splits)
  with v show ?thesis by auto
qed

lemma map_of_rev_notin: "k \<notin> fst ` set regs \<Longrightarrow> map_of (rev regs) k = None"
  by (simp add: map_of_eq_None_iff)

text \<open>
  C5. When a loaded skill and a tool served by an MCP server in scope have the same sanitized
  name, the console has the conflict for that name. Unless the name is that of a built-in
  tool or of a tool that asks another agent, the returned tool set holds under it the MCP
  tool that was registered last under that name: a tool with that sanitized name, served by
  an approved server in scope, made for that server's URL. A built-in tool of that name
  replaces it, and so does a tool that asks another agent.
\<close>

theorem mcp_tool_wins_collision:
  assumes run: "loadTools e reg agentId = Inr ld"
    and ids: "allowed_ids reg agentId = Inr (allowedSkillIds, allowedMcpIds)"
    and skills: "getActiveApproved reg = Inr skills"
    and servers: "getEnabledApproved reg = Inr servers"
    and s: "s \<in> set skills"
      "case allowedSkillIds of Some ids \<Rightarrow> skill_id s \<in> set ids | None \<Rightarrow> True"
    and served: "safeName (skill_name s)
                   \<in> fst ` set (mcp_registrations e reg allowedMcpIds servers [])"
  shows "LogConflict (safeName (skill_name s)) \<in> set (ld_console ld)
         \<and> (\<exists>server\<in>set servers. \<exists>url item.
               srv_url server = Some url \<and> url \<noteq> []
               \<and> (case allowedMcpIds of None \<Rightarrow> True | Some ids \<Rightarrow> srv_id server \<in> set ids)
               \<and> named item \<and> safeName (name_of item) = safeName (skill_name s)
               \<and> map_of (rev (mcp_registrations e reg allowedMcpIds servers []))
                     (safeName (skill_name s))
                   = Some (McpTool url item (srv_name server) (tool_api_key reg server)))
         \<and> (safeName (skill_name s) \<notin> set builtin_names
              \<and> safeName (skill_name s) \<notin> fst ` set (agent_registrations reg agentId)
              \<longrightarrow> map_of (ld_tools ld) (safeName (skill_name s))
                    = map_of (rev (mcp_registrations e reg allowedMcpIds servers []))
                        (safeName (skill_name s)))
         \<and> (safeName (skill_name s) \<in> set builtin_names
              \<and> safeName (skill_name s) \<notin> fst ` set (agent_registrations reg agentId)
              \<longrightarrow> map_of (ld_tools ld) (safeName (skill_name s))
                    = Some (BuiltinTool (safeName (skill_name s))))
         \<and> (safeName (skill_name s) \<in> fst ` set (agent_registrations reg agentId)
              \<longrightarrow> (\<exists>a b c. map_of (ld_tools ld) (safeName (skill_name s))
                              = Some (AgentTool a b c)))"
proof -
  define k where "k = safeName (skill_name s)"
  define S where "S = skill_registrations allowedSkillIds skills"
  define M where "M = mcp_registrations e reg allowedMcpIds servers []"
  define B where "B = builtin_registrations"
  define A where "A = agent_registrations reg agentId"
  define tools1 where "tools1 = load_skills allowedSkillIds skills []"
  define ld2 where "ld2 = load_mcp e reg allowedMcpIds \<lparr> ld_tools = tools1, ld_console = [], ld_trace = [] \<rparr>"
  have kM: "k \<in> fst ` set M" using served by (simp add: k_def M_def)
  have console: "ld_console ld = ld_console ld2"
    using loadTools_console[OF run ids skills] by (simp add: ld2_def tools1_def)
  have inv: "mcp_inv tools1 ld2"
    unfolding ld2_def by (rule load_mcp_inv) (simp add: mcp_inv_def)
  have key: "map_of tools1 k \<noteq> None"
    unfolding tools1_def k_def by (rule load_skills_key[OF s])
  from kM obtain kv where kv: "kv \<in> set M" "fst kv = k" by auto
  have "\<exists>n. LogRegistering n (fst kv) \<in> set (ld_console ld)"
    using loadTools_assign(2)[OF run ids skills] servers kv(1) by (simp add: M_def)
  then obtain n where "LogRegistering n k \<in> set (ld_console ld2)"
    using kv(2) console by auto
  with inv key have conflict: "LogConflict k \<in> set (ld_console ld)"
    unfolding mcp_inv_def console by blast
  have lookup: "map_of (ld_tools ld) k = map_of (rev (S @ M @ B @ A)) k"
    using loadTools_assign(1)[OF run ids skills] servers
    by (simp add: map_of_assign_Nil S_def M_def B_def A_def)
  have mM: "map_of (rev M) k \<noteq> None" using kM by (rule map_of_rev_in)
  then obtain v where v: "map_of (rev M) k = Some v" by auto
  then have "(k, v) \<in> set M" using map_of_SomeD[OF v] by simp
  from mcp_registrations_origin[OF this[unfolded M_def]]
  obtain server url item where o: "server \<in> set servers" "srv_url server = Some url" "url \<noteq> []"
    "case allowedMcpIds of None \<Rightarrow> True | Some ids \<Rightarrow> srv_id server \<in> set ids"
    "named item" "(k, v) = mcp_registration reg server url item" by blast
  have origin: "\<exists>server\<in>set servers. \<exists>url item.
               srv_url server = Some url \<and> url \<noteq> []
               \<and> (case allowedMcpIds of None \<Rightarrow> True | Some ids \<Rightarrow> srv_id server \<in> set ids)
               \<and> named item \<and> safeName (name_of item) = k
               \<and> map_of (rev M) k = Some (McpTool url item (srv_name server) (tool_api_key reg server))"
    using o v by (auto simp: mcp_registration_def)
  have plain: "map_of (ld_tools ld) k = map_of (rev M) k"
    if "k \<notin> set builtin_names" "k \<notin> fst ` set A"
    using that v map_of_rev_notin[OF that(2)]
    by (simp add: lookup map_add_def map_of_builtin_registrations B_def)
  have builtin: "map_of (ld_tools ld) k = Some (BuiltinTool k)"
    if "k \<in> set builtin_names" "k \<notin> fst ` set A"
    using that map_of_rev_notin[OF that(2)]
    by (simp add: lookup map_add_def map_of_builtin_registrations B_def)
  have agent: "\<exists>a b c. map_of (ld_tools ld) k = Some (AgentTool a b c)"
    if "k \<in> fst ` set A"
    using map_of_agent_registrations[OF that[unfolded A_def]]
    by (auto simp: lookup map_add_def A_def)
  from conflict origin plain builtin agent show ?thesis
    unfolding k_def M_def A_def by blast
qed

theorem mcp_tool_wins_collision_witness:
  "loadTools loader_world demo_registry None = Inr unscoped_run
   \<and> skill_search \<in> set [skill_search, demo_skill, skill_fetch]
   \<and> safeName (skill_name skill_search) = ''web_search''
   \<and> mcp_registrations loader_world demo_registry None [server_a, server_local, server_c] []
       = [(''web_search'',
           McpTool ''http://a.test/mcp'' (JObj [(''name'', JStr ''web search'')]) ''A'' None),
          (''lookup'',
           McpTool ''http://a.test/mcp'' (JObj [(''name'', JStr ''lookup'')]) ''A'' None),
          (''web_fetch'',
           McpTool ''http://c.test/mcp'' (JObj [(''name'', JStr ''web_fetch'')]) ''C'' None)]
   \<and> LogConflict ''web_search'' \<in> set (ld_console unscoped_run)
   \<and> map_of (ld_tools unscoped_run) ''web_search''
       = Some (McpTool ''http://a.test/mcp'' (JObj [(''name'', JStr ''web search'')]) ''A'' None)
   \<and> skill_fetch \<in> set [skill_search, demo_skill, skill_fetch]
   \<and> safeName (skill_name skill_fetch) = ''web_fetch''
   \<and> LogConflict ''web_fetch'' \<in> set (ld_console unscoped_run)
   \<and> map_of (ld_tools unscoped_run) ''web_fetch'' = Some (BuiltinTool ''web_fetch'')"
proof -
  have run: "loadTools loader_world demo_registry None = Inr unscoped_run"
    unfolding unscoped_run_def loaded_def by code_simp
  have ids: "allowed_ids demo_registry None = Inr (None, None)"
    by (simp add: allowed_ids_def)
  have sk: "getActiveApproved demo_registry = Inr [skill_search, demo_skill, skill_fetch]"
    and sv: "getEnabledApproved demo_registry = Inr [server_a, server_local, server_c]"
    by (simp_all add: demo_registry_def)
  have s1: "skill_search \<in> set [skill_search, demo_skill, skill_fetch]"
    and s2: "skill_fetch \<in> set [skill_search, demo_skill, skill_fetch]"
    and al: "case None :: string list option of Some ids \<Rightarrow> skill_id skill_search \<in> set ids | None \<Rightarrow> True"
      "case None :: string list option of Some ids \<Rightarrow> skill_id skill_fetch \<in> set ids | None \<Rightarrow> True"
    by simp_all
  have key1: "safeName (skill_name skill_search) = ''web_search''" by code_simp
  have key2: "safeName (skill_name skill_fetch) = ''web_fetch''" by code_simp
  have regs: "mcp_registrations loader_world demo_registry None [server_a, server_local, server_c] []
       = [(''web_search'',
           McpTool ''http://a.test/mcp'' (JObj [(''name'', JStr ''web search'')]) ''A'' None),
          (''lookup'',
           McpTool ''http://a.test/mcp'' (JObj [(''name'', JStr ''lookup'')]) ''A'' None),
          (''web_fetch'',
           McpTool ''http://c.test/mcp'' (JObj [(''name'', JStr ''web_fetch'')]) ''C'' None)]"
    by code_simp
  have m1: "safeName (skill_name skill_search)
              \<in> fst ` set (mcp_registrations loader_world demo_registry None
                              [server_a, server_local, server_c] [])"
    unfolding regs key1 by simp
  have m2: "safeName (skill_name skill_fetch)
              \<in> fst ` set (mcp_registrations loader_world demo_registry None
                              [server_a, server_local, server_c] [])"
    unfolding regs key2 by simp
  have nb: "''web_search'' \<notin> set builtin_names" by code_simp
  have b: "''web_fetch'' \<in> set builtin_names" by code_simp
  have na: "agent_registrations demo_registry None = []"
    by (simp add: agent_registrations_def)
  note search = mcp_tool_wins_collision[OF run ids sk sv s1 al(1) m1, unfolded key1 regs na]
  note fetch = mcp_tool_wins_collision[OF run ids sk sv s2 al(2) m2, unfolded key2 regs na]
  have c1: "LogConflict ''web_search'' \<in> set (ld_console unscoped_run)"
    using search by (elim conjE)
  have t1: "map_of (ld_tools unscoped_run) ''web_search''
       = Some (McpTool ''http://a.test/mcp'' (JObj [(''name'', JStr ''web search'')]) ''A'' None)"
    using search[THEN conjunct2, THEN conjunct2, THEN conjunct1] nb by simp
  have c2: "LogConflict ''web_fetch'' \<in> set (ld_console unscoped_run)"
    using fetch by (elim conjE)
  have t2: "map_of (ld_tools unscoped_run) ''web_fetch'' = Some (BuiltinTool ''web_fetch'')"
    using fetch[THEN conjunct2, THEN conjunct2, THEN conjunct2, THEN conjunct1] b by simp
  from run s1 key1 regs c1 t1 s2 key2 c2 t2 show ?thesis by (intro conjI)
qed

text \<open>
  C5 (as the specification words it) fails for the name of a built-in tool: the skill
  \<open>web_fetch\<close> and the tool \<open>web_fetch\<close> of server C collide, the conflict is on the console,
  and the returned tool set holds the built-in tool, which is assigned after both.
\<close>

theorem builtin_tool_wins_collision:
  "loadTools loader_world demo_registry None = Inr unscoped_run
   \<and> skill_fetch \<in> set [skill_search, demo_skill, skill_fetch]
   \<and> safeName (skill_name skill_fetch) = ''web_fetch''
   \<and> LogRegistering (JStr ''web_fetch'') ''web_fetch'' \<in> set (ld_console unscoped_run)
   \<and> LogConflict ''web_fetch'' \<in> set (ld_console unscoped_run)
   \<and> map_of (ld_tools unscoped_run) ''web_fetch'' = Some (BuiltinTool ''web_fetch'')
   \<and> map_of (ld_tools unscoped_run) ''web_fetch''
       \<noteq> Some (McpTool ''http://c.test/mcp'' (JObj [(''name'', JStr ''web_fetch'')]) ''C'' None)"
proof -
  have run: "loadTools loader_world demo_registry None = Inr unscoped_run"
    unfolding unscoped_run_def loaded_def by code_simp
  have key: "safeName (skill_name skill_fetch) = ''web_fetch''" by code_simp
  have registered: "LogRegistering (JStr ''web_fetch'') ''web_fetch'' \<in> set (ld_console unscoped_run)"
    by code_simp
  have conflict: "LogConflict ''web_fetch'' \<in> set (ld_console unscoped_run)"
    by code_simp
  have final: "map_of (ld_tools unscoped_run) ''web_fetch'' = Some (BuiltinTool ''web_fetch'')"
    by code_simp
  show ?thesis using run key registered conflict final by simp
qed







end
